theory Spec2Isabelle
  imports Complex_Main "HOL-Library.Word"
begin

unbundle bit_operations_syntax

section \<open>Conventions of the embedding\<close>

text \<open>
  The simulator is C++. A member function that mutates its object becomes a function from
  the object's state to an \<open>outcome\<close>: the call either returns (\<open>Done\<close>, with the new
  state), or leaves through an exception (\<open>Thrown\<close>, with the exception and the state the
  object is left in at the throw), or executes an operation whose result the language
  leaves undefined (\<open>Undefined\<close>: a shift of a 64-bit value by 64 or more, a conversion of a
  negative floating-point value to an unsigned integer, an addition of signed integers
  whose sum the type cannot hold).

  Unsigned 32-bit and 64-bit integers are \<open>32 word\<close> and \<open>64 word\<close>; the fixed-point type
  \<open>fix_t\<close> is a signed 32-bit integer, a \<open>32 word\<close> read with \<open>sint\<close>. Indices and delays
  that are only compared and used as vector subscripts are natural numbers.

  The neuron update of the CPU back end computes in \<open>float\<close> and \<open>double\<close>; there every
  operation is rounded as its C++ type prescribes (next subsection). Elsewhere a single
  precision value stands for the real number it denotes: a synaptic weight on its way to
  the fixed-point format, the largest weight of the CUDA connectivity matrix, whose
  logarithm is taken exactly, and the STDP reward.
\<close>

datatype exn =
    NEMO_API_UNSUPPORTED
  | NEMO_INVALID_INPUT
  | std_overflow_error
  | std_out_of_range
  | std_runtime_error
  | KernelInvocationError
  | DeviceAssertionFailure

datatype 'a outcome = Done 'a | Thrown exn 'a | Undefined

fun bind_outcome :: "'a outcome \<Rightarrow> ('a \<Rightarrow> 'a outcome) \<Rightarrow> 'a outcome" where
  "bind_outcome (Done s) f = f s"
| "bind_outcome (Thrown e s) f = Thrown e s"
| "bind_outcome Undefined f = Undefined"

text \<open>The state an object is in after a call, whether the call returned or threw.\<close>

fun state_of :: "'a outcome \<Rightarrow> 'a option" where
  "state_of (Done s) = Some s"
| "state_of (Thrown e s) = Some s"
| "state_of Undefined = None"

type_synonym fix_t = "32 word"

subsection \<open>Floating-point values\<close>

text \<open>
  A \<open>float\<close> or a \<open>double\<close> is a value of IEEE 754 binary32 or binary64: a finite number,
  given as the real number it denotes (the two zeros are not told apart; no operation of
  the code distinguishes them), an infinity with its sign (\<open>True\<close> for the negative one), or
  a NaN. Every binary32 value is a binary64 value, so that one type serves both and the
  promotion of a \<open>float\<close> operand to \<open>double\<close> changes nothing.
\<close>

datatype fp = Finite real | Infinite bool | NaN

text \<open>
  \<open>round_to p emin emax x\<close> rounds the real number \<open>x\<close> to the format with \<open>p\<close> significant
  bits and exponents from \<open>emin\<close> to \<open>emax\<close>, to nearest with ties to even. With \<open>2^e\<close> the
  largest power of two not above \<open>|x|\<close>, but \<open>e\<close> not below \<open>emin\<close> (smaller values are
  rounded as subnormal numbers), \<open>|x|\<close> is rounded to a multiple of \<open>2^(e - p + 1)\<close>; a result
  of \<open>2^(emax + 1)\<close> or more is an infinity. \<open>ilog2 fuel x\<close> is the exponent \<open>e\<close> with
  \<open>2^e \<le> x < 2^(e + 1)\<close>, found by at most \<open>fuel\<close> halvings or doublings.
\<close>

definition pow2 :: "int \<Rightarrow> real" where
  "pow2 e = (if 0 \<le> e then 2 ^ nat e else 1 / 2 ^ nat (- e))"

fun ilog2 :: "nat \<Rightarrow> real \<Rightarrow> int" where
  "ilog2 fuel x =
     (if fuel = 0 then 0
      else if 2 \<le> x then ilog2 (fuel - 1) (x / 2) + 1
      else if x < 1 then ilog2 (fuel - 1) (2 * x) - 1
      else 0)"

declare ilog2.simps [simp del]

definition round_even :: "real \<Rightarrow> int" where
  "round_even x =
     (let n = \<lfloor>x\<rfloor>; r = x - of_int n
      in if r < 1 / 2 then n else if 1 / 2 < r then n + 1 else if even n then n else n + 1)"

definition round_to :: "nat \<Rightarrow> int \<Rightarrow> int \<Rightarrow> real \<Rightarrow> fp" where
  "round_to p emin emax x =
     (let m = \<bar>x\<bar>
      in if m = 0 then Finite 0
         else if pow2 (emax + 1) \<le> m then Infinite (x < 0)
         else
           let e = (if m < pow2 emin then emin else ilog2 (nat (emax - emin) + 1) m);
               ulp = pow2 (e - int p + 1);
               y = of_int (round_even (m / ulp)) * ulp
           in if pow2 (emax + 1) \<le> y then Infinite (x < 0)
              else Finite (if x < 0 then - y else y))"

definition to_float :: "real \<Rightarrow> fp" where
  "to_float = round_to 24 (- 126) 127"

definition to_double :: "real \<Rightarrow> fp" where
  "to_double = round_to 53 (- 1022) 1023"

text \<open>
  The operations take the rounding of the type in which C++ evaluates them: \<open>to_double\<close>
  when an operand is a \<open>double\<close>, \<open>to_float\<close> when both are \<open>float\<close>. Expressions are evaluated
  in the precision of their type (\<open>FLT_EVAL_METHOD\<close> 0), and a multiplication and an addition
  are not fused. \<open>fp_round\<close> is the conversion to a type, as on a store to a \<open>float\<close>.
\<close>

fun fp_round :: "(real \<Rightarrow> fp) \<Rightarrow> fp \<Rightarrow> fp" where
  "fp_round r (Finite x) = r x"
| "fp_round r (Infinite s) = Infinite s"
| "fp_round r NaN = NaN"

fun fp_add :: "(real \<Rightarrow> fp) \<Rightarrow> fp \<Rightarrow> fp \<Rightarrow> fp" where
  "fp_add r (Finite x) (Finite y) = r (x + y)"
| "fp_add r (Finite x) (Infinite t) = Infinite t"
| "fp_add r (Infinite s) (Finite y) = Infinite s"
| "fp_add r (Infinite s) (Infinite t) = (if s = t then Infinite s else NaN)"
| "fp_add r NaN y = NaN"
| "fp_add r (Finite x) NaN = NaN"
| "fp_add r (Infinite s) NaN = NaN"

fun fp_neg :: "fp \<Rightarrow> fp" where
  "fp_neg (Finite x) = Finite (- x)"
| "fp_neg (Infinite s) = Infinite (\<not> s)"
| "fp_neg NaN = NaN"

definition fp_sub :: "(real \<Rightarrow> fp) \<Rightarrow> fp \<Rightarrow> fp \<Rightarrow> fp" where
  "fp_sub r x y = fp_add r x (fp_neg y)"

fun fp_mul :: "(real \<Rightarrow> fp) \<Rightarrow> fp \<Rightarrow> fp \<Rightarrow> fp" where
  "fp_mul r (Finite x) (Finite y) = r (x * y)"
| "fp_mul r (Finite x) (Infinite t) = (if x = 0 then NaN else Infinite (t \<noteq> (x < 0)))"
| "fp_mul r (Infinite s) (Finite y) = (if y = 0 then NaN else Infinite (s \<noteq> (y < 0)))"
| "fp_mul r (Infinite s) (Infinite t) = Infinite (s \<noteq> t)"
| "fp_mul r NaN y = NaN"
| "fp_mul r (Finite x) NaN = NaN"
| "fp_mul r (Infinite s) NaN = NaN"

text \<open>The comparisons \<open>>=\<close> and \<open>==\<close>; both are false when an operand is a NaN.\<close>

fun fp_ge :: "fp \<Rightarrow> fp \<Rightarrow> bool" where
  "fp_ge (Finite x) (Finite y) \<longleftrightarrow> y \<le> x"
| "fp_ge (Finite x) (Infinite t) \<longleftrightarrow> t"
| "fp_ge (Infinite s) (Finite y) \<longleftrightarrow> \<not> s"
| "fp_ge (Infinite s) (Infinite t) \<longleftrightarrow> \<not> s \<or> t"
| "fp_ge NaN y \<longleftrightarrow> False"
| "fp_ge (Finite x) NaN \<longleftrightarrow> False"
| "fp_ge (Infinite s) NaN \<longleftrightarrow> False"

fun fp_eq :: "fp \<Rightarrow> fp \<Rightarrow> bool" where
  "fp_eq (Finite x) (Finite y) \<longleftrightarrow> x = y"
| "fp_eq (Infinite s) (Infinite t) \<longleftrightarrow> s = t"
| "fp_eq (Finite x) (Infinite t) \<longleftrightarrow> False"
| "fp_eq (Infinite s) (Finite y) \<longleftrightarrow> False"
| "fp_eq NaN y \<longleftrightarrow> False"
| "fp_eq (Finite x) NaN \<longleftrightarrow> False"
| "fp_eq (Infinite s) NaN \<longleftrightarrow> False"

abbreviation dadd :: "fp \<Rightarrow> fp \<Rightarrow> fp" where "dadd \<equiv> fp_add to_double"
abbreviation dsub :: "fp \<Rightarrow> fp \<Rightarrow> fp" where "dsub \<equiv> fp_sub to_double"
abbreviation dmul :: "fp \<Rightarrow> fp \<Rightarrow> fp" where "dmul \<equiv> fp_mul to_double"
abbreviation fadd :: "fp \<Rightarrow> fp \<Rightarrow> fp" where "fadd \<equiv> fp_add to_float"
abbreviation fsub :: "fp \<Rightarrow> fp \<Rightarrow> fp" where "fsub \<equiv> fp_sub to_float"
abbreviation fmul :: "fp \<Rightarrow> fp \<Rightarrow> fp" where "fmul \<equiv> fp_mul to_float"
abbreviation float_of :: "fp \<Rightarrow> fp" where "float_of \<equiv> fp_round to_float"

section \<open>The CUDA back end\<close>

subsection \<open>Parts that are not among the sources\<close>

text \<open>
  Modelled from the spec: the macro \<open>MAX_DELAY\<close>, whose definition is not among the
  sources. The spec gives \<open>MAX_DELAY = 64\<close>.
\<close>

definition MAX_DELAY :: nat where
  "MAX_DELAY = 64"

text \<open>
  Modelled from the spec: the macro \<open>ERROR\<close> of except.hpp, which is not among the sources.
  It leaves the function with a failure; the spec names the failure of \<open>add_synapse\<close> on
  a delay out of range \<open>InvalidInput\<close>.
\<close>

definition ERROR :: exn where
  "ERROR = NEMO_INVALID_INPUT"

text \<open>
  Modelled from the spec: the reverse matrix \<open>RSMatrix\<close>, of which the sources hold no
  function body. The spec has it store, under each target neuron, an entry for every
  incoming plastic synapse (here source partition, source neuron, index of the synapse in
  its forward bundle, delay) and an accumulator of weight changes parallel to the entries;
  \<open>clearStdpAccumulator\<close> resets every accumulator to zero.
\<close>

record RSMatrix =
  m_partitionSize :: nat
  mh_source :: "nat \<Rightarrow> (nat \<times> nat \<times> nat \<times> nat) list"
  d_stdp :: "nat \<Rightarrow> fix_t list"

definition RSMatrix_new :: "nat \<Rightarrow> RSMatrix" where
  "RSMatrix_new partitionSize =
     \<lparr>m_partitionSize = partitionSize, mh_source = (\<lambda>tn. []), d_stdp = (\<lambda>tn. [])\<rparr>"

definition RSMatrix_addSynapse :: "nat \<Rightarrow> nat \<Rightarrow> nat \<Rightarrow> nat \<Rightarrow> nat \<Rightarrow> RSMatrix \<Rightarrow> RSMatrix" where
  "RSMatrix_addSynapse sp sn sidx tn delay r =
     r\<lparr>mh_source := (mh_source r)(tn := mh_source r tn @ [(sp, sn, sidx, delay)]),
       d_stdp := (d_stdp r)(tn := d_stdp r tn @ [0])\<rparr>"

definition RSMatrix_clearStdpAccumulator :: "RSMatrix \<Rightarrow> RSMatrix" where
  "RSMatrix_clearStdpAccumulator r = r\<lparr>d_stdp := (\<lambda>tn. map (\<lambda>acc. 0) (d_stdp r tn))\<rparr>"

text \<open>
  The STDP configuration \<open>STDP<float>\<close> (STDP.hpp is not among the sources), as far as the
  simulation classes read it.
\<close>

record STDP =
  enabled :: bool
  minWeight :: real
  maxWeight :: real

subsection \<open>The connectivity matrix (libnemo/src/ConnectivityMatrix.cpp)\<close>

text \<open>
  The nested maps \<open>mh_fcm\<close> (source neuron, then target partition and delay, to a bundle
  of synapses) are read with \<open>operator[]\<close> only, which creates an empty bundle where there
  is none: a function with the empty bundle everywhere at first. \<open>m_rsynapses\<close> maps a
  target partition to its reverse matrix. \<open>md_fcm\<close> stands for the weights on the device.
  The members \<open>m_maxDelay\<close> and \<open>m_fractionalBits\<close> carry the suffix \<open>_cuda\<close> here.
\<close>

record ConnectivityMatrix_cuda =
  m_maxPartitionSize :: nat
  m_maxDelay_cuda :: nat
  m_setReverse :: bool
  mh_fcm :: "nat \<times> nat \<Rightarrow> nat \<times> nat \<Rightarrow> (nat \<times> real \<times> bool) list"
  m_rsynapses :: "nat \<Rightarrow> RSMatrix option"
  m_maxPartitionIdx :: nat
  m_maxAbsWeight :: real
  m_fractionalBits_cuda :: "32 word"
  md_fcm :: "fix_t list"

definition ConnectivityMatrix_cuda_new :: "nat \<Rightarrow> bool \<Rightarrow> ConnectivityMatrix_cuda" where
  "ConnectivityMatrix_cuda_new maxPartitionSize setReverse =
     \<lparr>m_maxPartitionSize = maxPartitionSize,
      m_maxDelay_cuda = 0,
      m_setReverse = setReverse,
      mh_fcm = (\<lambda>source bundle. []),
      m_rsynapses = (\<lambda>tp. None),
      m_maxPartitionIdx = 0,
      m_maxAbsWeight = 0.0,
      m_fractionalBits_cuda = NOT 0,
      md_fcm = []\<rparr>"

definition addSynapse ::
  "nat \<Rightarrow> nat \<Rightarrow> nat \<Rightarrow> nat \<Rightarrow> nat \<Rightarrow> real \<Rightarrow> bool \<Rightarrow> ConnectivityMatrix_cuda \<Rightarrow>
   ConnectivityMatrix_cuda outcome" where
  "addSynapse sp sn delay tp tn w plastic cm =
     (if delay > MAX_DELAY \<or> delay = 0 then Thrown ERROR cm
      else
        let bundle = mh_fcm cm (sp, sn) (tp, delay);
            sidx = length bundle;
            cm = cm\<lparr>mh_fcm := (mh_fcm cm)((sp, sn) :=
                       (mh_fcm cm (sp, sn))((tp, delay) := bundle @ [(tn, w, plastic)])),
                    m_maxAbsWeight := max (m_maxAbsWeight cm) w,
                    m_maxPartitionIdx := max (m_maxPartitionIdx cm) (max sp tp)\<rparr>;
            cm = (if m_setReverse cm \<and> plastic then
                    let r = (case m_rsynapses cm tp of
                               None \<Rightarrow> RSMatrix_new (m_maxPartitionSize cm)
                             | Some r \<Rightarrow> r)
                    in cm\<lparr>m_rsynapses :=
                            (m_rsynapses cm)(tp \<mapsto> RSMatrix_addSynapse sp sn sidx tn delay r)\<rparr>
                  else cm)
        in Done (cm\<lparr>m_maxDelay_cuda := max (m_maxDelay_cuda cm) delay\<rparr>))"

text \<open>
  \<open>setFractionalBits\<close>: \<open>uint log2Ceil = ceilf(log2(m_maxAbsWeight))\<close>, then
  \<open>31 - log2Ceil - 5\<close> in unsigned arithmetic. The logarithm of a weight that is not
  positive is no number, and the conversion of a floating-point value to \<open>uint\<close> is
  defined only where the truncated value is an \<open>uint\<close>.
\<close>

definition uint_of_float :: "real \<Rightarrow> 32 word option" where
  "uint_of_float x =
     (if - 1 < x \<and> x < 2 ^ 32
      then Some (word_of_int (if 0 \<le> x then \<lfloor>x\<rfloor> else \<lceil>x\<rceil>))
      else None)"

definition setFractionalBits ::
  "ConnectivityMatrix_cuda \<Rightarrow> (32 word \<times> ConnectivityMatrix_cuda) outcome" where
  "setFractionalBits cm =
     (if m_maxAbsWeight cm \<le> 0 then Undefined
      else case uint_of_float (of_int \<lceil>log 2 (m_maxAbsWeight cm)\<rceil>) of
             None \<Rightarrow> Undefined
           | Some log2Ceil \<Rightarrow>
               let fbits = 31 - log2Ceil - 5
               in Done (fbits, cm\<lparr>m_fractionalBits_cuda := fbits\<rparr>))"

text \<open>
  The number of fractional bits as the spec words it, from the largest absolute weight:
  \<open>31 - ceil(log2(max|w|)) - 5\<close>.
\<close>

definition spec_fractionalBits :: "real list \<Rightarrow> int" where
  "spec_fractionalBits ws = 31 - \<lceil>log 2 (Max (set (map abs ws)))\<rceil> - 5"

definition clearStdpAccumulator :: "ConnectivityMatrix_cuda \<Rightarrow> ConnectivityMatrix_cuda" where
  "clearStdpAccumulator cm =
     cm\<lparr>m_rsynapses := (\<lambda>tp. map_option RSMatrix_clearStdpAccumulator (m_rsynapses cm tp))\<rparr>"

definition fractionalBits :: "ConnectivityMatrix_cuda \<Rightarrow> 32 word option" where
  "fractionalBits cm =
     (if m_fractionalBits_cuda cm = NOT 0 then None else Some (m_fractionalBits_cuda cm))"

subsection \<open>Stepping and applying STDP\<close>

text \<open>
  \<open>nemo::cuda::Simulation\<close> (libnemo/src/CudaSimulation.cpp), \<open>RuntimeData\<close>
  (libnemo/src/RuntimeData.cpp) and \<open>nemo::cuda::SimulationImpl\<close>
  (libnemo/src/CudaSimulationImpl.cpp). What runs on the device is not among the sources
  and is a parameter of each function:
  \<^item> \<open>device_step\<close>: all that \<open>step\<close> does after it has incremented the counter (the copy
    of the firing stimulus, the firing output buffer, the kernel launch, the test of
    \<open>cudaGetLastError\<close>, the check of the device assertions); it works on the connectivity
    matrix and on the rest of the device state, and returns or throws;
  \<open>RuntimeData::stepSimulation\<close> also returns a status;
  \<^item> \<open>applyStdp_kernel\<close>: the kernel \<open>::applyStdp\<close>, which works on the connectivity matrix;
  \<^item> \<open>check\<close>: \<open>DeviceAssertions::check\<close>, true where it throws.
  The members of \<open>RuntimeData\<close> and of \<open>SimulationImpl\<close> carry the suffixes \<open>_rt\<close> and
  \<open>_impl\<close> where the names are those of \<open>Simulation\<close>.
\<close>

record 'd cuda_Simulation =
  m_cycle :: "32 word"
  m_stdpFn :: STDP
  m_cm_cuda :: ConnectivityMatrix_cuda
  m_partitionCount :: nat
  device :: 'd

definition usingStdp :: "'d cuda_Simulation \<Rightarrow> bool" where
  "usingStdp s = enabled (m_stdpFn s)"

definition cuda_step ::
  "(bool \<Rightarrow> 32 word \<Rightarrow> nat list \<Rightarrow> ConnectivityMatrix_cuda \<times> 'd \<Rightarrow>
      (ConnectivityMatrix_cuda \<times> 'd) outcome) \<Rightarrow>
   nat list \<Rightarrow> 'd cuda_Simulation \<Rightarrow> 'd cuda_Simulation outcome" where
  "cuda_step device_step fstim s =
     (if m_cycle s = NOT 0 then Thrown std_overflow_error s
      else
        let s = s\<lparr>m_cycle := m_cycle s + 1\<rparr>
        in case device_step (usingStdp s) (m_cycle s) fstim (m_cm_cuda s, device s) of
             Done (cm, d) \<Rightarrow> Done (s\<lparr>m_cm_cuda := cm, device := d\<rparr>)
           | Thrown e (cm, d) \<Rightarrow> Thrown e (s\<lparr>m_cm_cuda := cm, device := d\<rparr>)
           | Undefined \<Rightarrow> Undefined)"

text \<open>A run of the simulation: one call of \<open>step\<close> per stimulus, up to the first failure.\<close>

fun cuda_run ::
  "(bool \<Rightarrow> 32 word \<Rightarrow> nat list \<Rightarrow> ConnectivityMatrix_cuda \<times> 'd \<Rightarrow>
      (ConnectivityMatrix_cuda \<times> 'd) outcome) \<Rightarrow>
   nat list list \<Rightarrow> 'd cuda_Simulation \<Rightarrow> 'd cuda_Simulation outcome" where
  "cuda_run device_step [] s = Done s"
| "cuda_run device_step (fstim # rest) s =
     bind_outcome (cuda_step device_step fstim s) (cuda_run device_step rest)"

definition cuda_applyStdp ::
  "(nat \<Rightarrow> 32 word \<Rightarrow> real \<Rightarrow> real \<Rightarrow> real \<Rightarrow> ConnectivityMatrix_cuda \<Rightarrow> ConnectivityMatrix_cuda) \<Rightarrow>
   ('d cuda_Simulation \<Rightarrow> bool) \<Rightarrow> real \<Rightarrow> 'd cuda_Simulation \<Rightarrow> 'd cuda_Simulation outcome" where
  "cuda_applyStdp applyStdp_kernel check reward s =
     (if \<not> usingStdp s then Done s
      else
        let r =
          (if reward = 0.0 then Done (s\<lparr>m_cm_cuda := clearStdpAccumulator (m_cm_cuda s)\<rparr>)
           else case fractionalBits (m_cm_cuda s) of
                  None \<Rightarrow> Thrown std_runtime_error s
                | Some fbits \<Rightarrow>
                    Done (s\<lparr>m_cm_cuda := applyStdp_kernel (m_partitionCount s) fbits
                              (maxWeight (m_stdpFn s)) (minWeight (m_stdpFn s)) reward
                              (m_cm_cuda s)\<rparr>))
        in bind_outcome r (\<lambda>s. if check s then Thrown DeviceAssertionFailure s else Done s))"

text \<open>
  \<open>RuntimeData\<close>: \<open>startSimulation\<close> moves the network to the device on the first call (while
  \<open>m_deviceDirty\<close> holds) and is the identity afterwards; \<open>moveToDevice\<close> is a parameter.
  The status returned by \<open>stepSimulation\<close> is kept in \<open>last_status\<close>.
\<close>

datatype status_t = KERNEL_OK | KERNEL_ASSERTION_FAILURE

record 'd RuntimeData =
  m_cycle_rt :: "32 word"
  stdpFn :: STDP
  m_cm_rt :: ConnectivityMatrix_cuda
  m_partitionCount_rt :: nat
  m_deviceDirty :: bool
  device_rt :: 'd
  last_status :: status_t

definition usingStdp_rt :: "'d RuntimeData \<Rightarrow> bool" where
  "usingStdp_rt s = enabled (stdpFn s)"

definition startSimulation ::
  "(ConnectivityMatrix_cuda \<times> 'd \<Rightarrow> ConnectivityMatrix_cuda \<times> 'd) \<Rightarrow>
   'd RuntimeData \<Rightarrow> 'd RuntimeData" where
  "startSimulation moveToDevice s =
     (if m_deviceDirty s
      then case moveToDevice (m_cm_rt s, device_rt s) of
             (cm, d) \<Rightarrow> s\<lparr>m_cm_rt := cm, device_rt := d, m_deviceDirty := False\<rparr>
      else s)"

definition stepSimulation ::
  "(ConnectivityMatrix_cuda \<times> 'd \<Rightarrow> ConnectivityMatrix_cuda \<times> 'd) \<Rightarrow>
   (bool \<Rightarrow> 32 word \<Rightarrow> nat list \<Rightarrow> ConnectivityMatrix_cuda \<times> 'd \<Rightarrow>
      ((ConnectivityMatrix_cuda \<times> 'd) \<times> status_t) outcome) \<Rightarrow>
   nat list \<Rightarrow> 'd RuntimeData \<Rightarrow> 'd RuntimeData outcome" where
  "stepSimulation moveToDevice device_step fstim s =
     (let s = startSimulation moveToDevice s
      in if m_cycle_rt s = NOT 0 then Thrown std_overflow_error s
         else
           let s = s\<lparr>m_cycle_rt := m_cycle_rt s + 1\<rparr>
           in case device_step (usingStdp_rt s) (m_cycle_rt s) fstim (m_cm_rt s, device_rt s) of
                Done ((cm, d), st) \<Rightarrow> Done (s\<lparr>m_cm_rt := cm, device_rt := d, last_status := st\<rparr>)
              | Thrown e ((cm, d), st) \<Rightarrow> Thrown e (s\<lparr>m_cm_rt := cm, device_rt := d\<rparr>)
              | Undefined \<Rightarrow> Undefined)"

definition RuntimeData_applyStdp ::
  "(nat \<Rightarrow> 32 word \<Rightarrow> STDP \<Rightarrow> real \<Rightarrow> ConnectivityMatrix_cuda \<Rightarrow> ConnectivityMatrix_cuda) \<Rightarrow>
   real \<Rightarrow> 'd RuntimeData \<Rightarrow> 'd RuntimeData outcome" where
  "RuntimeData_applyStdp applyStdp_kernel reward s =
     (if m_deviceDirty s then Done s
      else if \<not> usingStdp_rt s then Done s
      else if reward = 0.0 then Done (s\<lparr>m_cm_rt := clearStdpAccumulator (m_cm_rt s)\<rparr>)
      else case fractionalBits (m_cm_rt s) of
             None \<Rightarrow> Thrown std_runtime_error s
           | Some fbits \<Rightarrow>
               Done (s\<lparr>m_cm_rt := applyStdp_kernel (m_partitionCount_rt s) fbits (stdpFn s) reward
                         (m_cm_rt s)\<rparr>))"

record 'd SimulationImpl =
  m_stdpFn_impl :: STDP
  m_cm_impl :: ConnectivityMatrix_cuda
  m_partitionCount_impl :: nat
  m_timer_impl :: nat
  device_impl :: 'd

definition usingStdp_impl :: "'d SimulationImpl \<Rightarrow> bool" where
  "usingStdp_impl s = enabled (m_stdpFn_impl s)"

definition SimulationImpl_applyStdp ::
  "(nat \<Rightarrow> 32 word \<Rightarrow> real \<Rightarrow> real \<Rightarrow> real \<Rightarrow> ConnectivityMatrix_cuda \<Rightarrow> ConnectivityMatrix_cuda) \<Rightarrow>
   ('d SimulationImpl \<Rightarrow> bool) \<Rightarrow> real \<Rightarrow> 'd SimulationImpl \<Rightarrow> 'd SimulationImpl outcome" where
  "SimulationImpl_applyStdp applyStdp_kernel check reward s =
     (if \<not> usingStdp_impl s then Done s
      else
        let r =
          (if reward = 0.0 then Done (s\<lparr>m_cm_impl := clearStdpAccumulator (m_cm_impl s)\<rparr>)
           else case fractionalBits (m_cm_impl s) of
                  None \<Rightarrow> Thrown std_runtime_error s
                | Some fbits \<Rightarrow>
                    Done (s\<lparr>m_cm_impl := applyStdp_kernel (m_partitionCount_impl s) fbits
                              (maxWeight (m_stdpFn_impl s)) (minWeight (m_stdpFn_impl s)) reward
                              (m_cm_impl s)\<rparr>))
        in bind_outcome r (\<lambda>s. if check s then Thrown DeviceAssertionFailure s else Done s))"

subsection \<open>Example states\<close>

definition example_stdp :: "bool \<Rightarrow> STDP" where
  "example_stdp on = \<lparr>enabled = on, minWeight = - 10, maxWeight = 10\<rparr>"

definition example_cuda_Simulation :: "32 word \<Rightarrow> unit cuda_Simulation" where
  "example_cuda_Simulation c =
     \<lparr>m_cycle = c, m_stdpFn = example_stdp False,
      m_cm_cuda = ConnectivityMatrix_cuda_new 1024 True, m_partitionCount = 1, device = ()\<rparr>"

definition example_RuntimeData :: "32 word \<Rightarrow> unit RuntimeData" where
  "example_RuntimeData c =
     \<lparr>m_cycle_rt = c, stdpFn = example_stdp False,
      m_cm_rt = ConnectivityMatrix_cuda_new 1024 True, m_partitionCount_rt = 1,
      m_deviceDirty = False, device_rt = (), last_status = KERNEL_OK\<rparr>"

definition example_plastic_cm :: ConnectivityMatrix_cuda where
  "example_plastic_cm =
     (ConnectivityMatrix_cuda_new 1024 True)
       \<lparr>m_rsynapses :=
          [0 \<mapsto> (RSMatrix_new 1024)
                   \<lparr>mh_source := (\<lambda>tn. [])(1 := [(0, 0, 0, 1)]),
                    d_stdp := (\<lambda>tn. [])(1 := [5])\<rparr>],
        md_fcm := [256]\<rparr>"

definition example_SimulationImpl :: "bool \<Rightarrow> unit SimulationImpl" where
  "example_SimulationImpl on =
     \<lparr>m_stdpFn_impl = example_stdp on, m_cm_impl = example_plastic_cm,
      m_partitionCount_impl = 1, m_timer_impl = 0, device_impl = ()\<rparr>"

text \<open>
  The number of fractional bits the code arrives at for a network whose synapses have the
  given weights: \<open>addSynapse\<close> for each weight in turn, from the state the constructor
  leaves, then \<open>setFractionalBits\<close>.
\<close>

fun addWeights :: "real list \<Rightarrow> ConnectivityMatrix_cuda \<Rightarrow> ConnectivityMatrix_cuda outcome" where
  "addWeights [] cm = Done cm"
| "addWeights (w # ws) cm = bind_outcome (addSynapse 0 0 1 0 1 w False cm) (addWeights ws)"

definition code_fractionalBits :: "real list \<Rightarrow> 32 word option" where
  "code_fractionalBits ws =
     (case addWeights ws (ConnectivityMatrix_cuda_new 1024 False) of
        Done cm \<Rightarrow>
          (case setFractionalBits cm of
             Done (fbits, cm') \<Rightarrow> Some fbits
           | Thrown e c \<Rightarrow> None
           | Undefined \<Rightarrow> None)
      | Thrown e cm \<Rightarrow> None
      | Undefined \<Rightarrow> None)"

section \<open>The CPU back end\<close>

subsection \<open>Parts that are not among the sources\<close>

text \<open>
  Modelled from the spec: \<open>fx_toFloat\<close> of fixedpoint.hpp, which is not among the sources.
  The spec gives the conversion from fixed point as \<open>fx / 2^f\<close>; the result is a \<open>float\<close>.
\<close>

definition fx_toFloat :: "fix_t \<Rightarrow> nat \<Rightarrow> fp" where
  "fx_toFloat fx fbits = to_float (real_of_int (sint fx) / 2 ^ fbits)"

text \<open>
  Modelled from the spec: \<open>fx_toFix\<close> of fixedpoint.hpp, which is not among the sources.
  The spec gives the conversion to fixed point as \<open>round(x * 2^f)\<close>.
\<close>

definition fx_toFix :: "real \<Rightarrow> nat \<Rightarrow> fix_t" where
  "fx_toFix x fbits = word_of_int (round (x * 2 ^ fbits))"

text \<open>
  Modelled from the spec: \<open>ctz64\<close> of bitops.h, which is not among the sources. The spec
  has the delivery loop extract the lowest set bit; \<open>ctz64\<close> is its position, the number of
  zero bits below it (64 for the word 0, on which the loop never calls it).
\<close>

fun ctz_upto :: "nat \<Rightarrow> 64 word \<Rightarrow> nat" where
  "ctz_upto 0 f = 0"
| "ctz_upto (Suc k) f = (if bit f 0 then 0 else 1 + ctz_upto k (drop_bit 1 f))"

definition ctz64 :: "64 word \<Rightarrow> nat" where
  "ctz64 f = ctz_upto 64 f"

text \<open>
  The random number generator, the index mapper and the timer are not among the sources
  either. A generator is a parameter \<open>gaussian\<close> that maps a generator state to a sample (a
  floating-point value, which the code converts to \<open>float\<close>) and the next state; the mapper is the pair of parameters \<open>localIdx\<close> and \<open>globalIdx\<close>; the
  timer is the number of simulated cycles, which \<open>m_timer.step()\<close> increments.
\<close>

subsection \<open>The connectivity matrix (libnemo/nemo/ConnectivityMatrix.cpp)\<close>

text \<open>
  A \<open>Row\<close> (\<open>len\<close> and \<open>data\<close>) is the list of its terminals. The accumulator \<open>m_acc\<close> is a
  map from (source, delay) to rows. The vector of rows, \<open>m_cm\<close> in the source, is called
  \<open>m_rows\<close> here, since the simulation has a member \<open>m_cm\<close> of its own.
\<close>

record AxonTerminal =
  at_target :: nat
  at_weight :: real
  at_plastic :: bool

record FAxonTerminal =
  weight :: fix_t
  target :: nat

type_synonym Row = "FAxonTerminal list"

definition Row_of :: "AxonTerminal list \<Rightarrow> nat \<Rightarrow> Row" where
  "Row_of ss fbits =
     map (\<lambda>si. \<lparr>weight = fx_toFix (at_weight si) fbits, target = at_target si\<rparr>) ss"

record ConnectivityMatrix =
  m_fractionalBits :: nat
  m_acc :: "nat \<times> nat \<Rightarrow> Row option"
  m_rows :: "Row list"
  m_delays :: "nat \<Rightarrow> nat set"
  m_maxDelay :: nat

definition setRow ::
  "(nat \<Rightarrow> nat) \<Rightarrow> nat \<Rightarrow> nat \<Rightarrow> AxonTerminal list \<Rightarrow> ConnectivityMatrix \<Rightarrow>
   ConnectivityMatrix outcome" where
  "setRow localIdx source delay ss cm =
     (if delay < 1 then Thrown NEMO_INVALID_INPUT cm
      else case m_acc cm (source, delay) of
             Some existing \<Rightarrow> Thrown NEMO_INVALID_INPUT cm
           | None \<Rightarrow>
               let row = map (\<lambda>t. t\<lparr>target := localIdx (target t)\<rparr>)
                           (Row_of ss (m_fractionalBits cm))
               in Done (cm\<lparr>m_acc := (m_acc cm)((source, delay) \<mapsto> row),
                            m_delays := (m_delays cm)(source := insert delay (m_delays cm source)),
                            m_maxDelay := max (m_maxDelay cm) delay\<rparr>))"

definition addressOf :: "ConnectivityMatrix \<Rightarrow> nat \<Rightarrow> nat \<Rightarrow> nat" where
  "addressOf cm source delay = source * m_maxDelay cm + delay - 1"

subsection \<open>The simulation (libnemo/nemo/cpu/Simulation.cpp)\<close>

definition SUBSTEPS :: nat where
  "SUBSTEPS = 4"

definition SUBSTEP_MULT :: fp where
  "SUBSTEP_MULT = Finite 0.25"

record 'r Simulation =
  m_neuronCount :: nat
  m_a :: "fp list"
  m_b :: "fp list"
  m_c :: "fp list"
  m_d :: "fp list"
  m_u :: "fp list"
  m_v :: "fp list"
  m_sigma :: "fp list"
  m_valid :: "bool list"
  m_fired :: "32 word list"
  m_recentFiring :: "64 word list"
  m_cm :: ConnectivityMatrix
  m_current :: "fix_t list"
  m_fstim :: "32 word list"
  m_rng :: "'r list"
  m_lastFlush :: nat
  m_stdp_enabled :: bool
  m_timer :: nat
  m_firedCycle :: "nat list"
  m_firedNeuron :: "nat list"

text \<open>The constructor gives each per-neuron vector \<open>m_neuronCount\<close> entries.\<close>

definition wf_Simulation :: "'r Simulation \<Rightarrow> bool" where
  "wf_Simulation s \<longleftrightarrow>
     length (m_a s) = m_neuronCount s \<and> length (m_b s) = m_neuronCount s \<and>
     length (m_c s) = m_neuronCount s \<and> length (m_d s) = m_neuronCount s \<and>
     length (m_u s) = m_neuronCount s \<and> length (m_v s) = m_neuronCount s \<and>
     length (m_sigma s) = m_neuronCount s \<and> length (m_valid s) = m_neuronCount s \<and>
     length (m_fired s) = m_neuronCount s \<and> length (m_recentFiring s) = m_neuronCount s \<and>
     length (m_current s) = m_neuronCount s \<and> length (m_fstim s) = m_neuronCount s \<and>
     length (m_rng s) = m_neuronCount s"

text \<open>\<open>setFiringStimulus\<close>: \<open>m_fstim.at(i) = true\<close> for each index of the stimulus.\<close>

fun setFiringStimulus ::
  "(nat \<Rightarrow> nat) \<Rightarrow> nat list \<Rightarrow> 'r Simulation \<Rightarrow> 'r Simulation outcome" where
  "setFiringStimulus localIdx [] s = Done s"
| "setFiringStimulus localIdx (i # fstim) s =
     (if localIdx i < length (m_fstim s)
      then setFiringStimulus localIdx fstim (s\<lparr>m_fstim := (m_fstim s)[localIdx i := 1]\<rparr>)
      else Thrown std_out_of_range s)"

text \<open>
  \<open>updateRange\<close>, the body of the loop over \<open>n\<close>. The four-fold loop over \<open>t\<close> works on
  \<open>m_v[n]\<close>, \<open>m_u[n]\<close> and \<open>m_fired[n]\<close>, here the triple \<open>(v, u, fired)\<close>; \<open>current\<close> is the
  local variable of the source, fixed before the loop.

  The members and \<open>current\<close> are \<open>float\<close>; the literals \<open>0.04\<close>, \<open>5.0\<close>, \<open>140.0\<close>, \<open>30.0\<close> and
  \<open>SUBSTEP_MULT\<close> are \<open>double\<close> (all but \<open>0.04\<close> are binary64 values as they stand). So the
  new \<open>m_v[n]\<close> is computed in \<open>double\<close> and rounded to \<open>float\<close> by the assignment; in the
  new \<open>m_u[n]\<close> the factor \<open>m_a[n] * (m_b[n] * m_v[n] - m_u[n])\<close> is computed in \<open>float\<close>, its
  product with \<open>SUBSTEP_MULT\<close> and the sum in \<open>double\<close>; the noise and the reset \<open>+=\<close> of
  \<open>m_d[n]\<close> are computed in \<open>float\<close>.
\<close>

definition input_current :: "('r \<Rightarrow> fp \<times> 'r) \<Rightarrow> 'r Simulation \<Rightarrow> nat \<Rightarrow> fp" where
  "input_current gaussian s n =
     (let current = fx_toFloat (m_current s ! n) (m_fractionalBits (m_cm s))
      in if \<not> fp_eq (m_sigma s ! n) (Finite 0)
         then fadd current (fmul (m_sigma s ! n) (float_of (fst (gaussian (m_rng s ! n)))))
         else current)"

definition substep :: "fp \<Rightarrow> fp \<Rightarrow> fp \<Rightarrow> fp \<times> fp \<times> 32 word \<Rightarrow> fp \<times> fp \<times> 32 word" where
  "substep a b current = (\<lambda>(v, u, fired).
     if fired = 0 then
       let v = float_of
                 (dadd v
                   (dmul SUBSTEP_MULT
                     (dadd
                       (dsub (dadd (dmul (dadd (dmul (to_double 0.04) v) (Finite 5.0)) v)
                          (Finite 140.0)) u)
                       current)));
           u = float_of (dadd u (dmul SUBSTEP_MULT (fmul a (fsub (fmul b v) u))));
           fired = (if fp_ge v (Finite 30.0) then 1 else 0)
       in (v, u, fired)
     else (v, u, fired))"

definition integrate :: "fp \<Rightarrow> fp \<Rightarrow> fp \<Rightarrow> fp \<Rightarrow> fp \<Rightarrow> fp \<times> fp \<times> 32 word" where
  "integrate a b current v u = (substep a b current ^^ SUBSTEPS) (v, u, 0)"

definition updateNeuron :: "('r \<Rightarrow> fp \<times> 'r) \<Rightarrow> nat \<Rightarrow> 'r Simulation \<Rightarrow> 'r Simulation" where
  "updateNeuron gaussian n s =
     (if \<not> m_valid s ! n then s
      else
        let current = input_current gaussian s n;
            rng = (if \<not> fp_eq (m_sigma s ! n) (Finite 0) then snd (gaussian (m_rng s ! n))
                   else m_rng s ! n);
            (v, u, fired) = integrate (m_a s ! n) (m_b s ! n) current (m_v s ! n) (m_u s ! n);
            fired = fired OR m_fstim s ! n;
            recent = push_bit 1 (m_recentFiring s ! n) OR ucast fired;
            (v, u) = (if fired \<noteq> 0 then (m_c s ! n, fadd u (m_d s ! n)) else (v, u))
        in s\<lparr>m_current := (m_current s)[n := 0],
             m_rng := (m_rng s)[n := rng],
             m_fired := (m_fired s)[n := fired],
             m_recentFiring := (m_recentFiring s)[n := recent],
             m_v := (m_v s)[n := v],
             m_u := (m_u s)[n := u]\<rparr>)"

definition updateRange ::
  "('r \<Rightarrow> fp \<times> 'r) \<Rightarrow> nat \<Rightarrow> nat \<Rightarrow> 'r Simulation \<Rightarrow> 'r Simulation" where
  "updateRange gaussian start end s = fold (updateNeuron gaussian) [start..<end] s"

text \<open>
  \<open>update\<close>, in the build without \<open>NEMO_CPU_MULTITHREADED\<close>. \<open>accumulateStdp\<close> throws
  \<open>NEMO_API_UNSUPPORTED\<close> as its first statement.
\<close>

definition update :: "('r \<Rightarrow> fp \<times> 'r) \<Rightarrow> 'r Simulation \<Rightarrow> 'r Simulation outcome" where
  "update gaussian s =
     (let s = updateRange gaussian 0 (m_neuronCount s) s
      in if m_stdp_enabled s then Thrown NEMO_API_UNSUPPORTED s else Done s)"

definition setFiring :: "(nat \<Rightarrow> nat) \<Rightarrow> 'r Simulation \<Rightarrow> 'r Simulation" where
  "setFiring globalIdx s =
     (let t = m_timer s - m_lastFlush s;
          fired = filter (\<lambda>n. m_fired s ! n \<noteq> 0) [0..<m_neuronCount s]
      in s\<lparr>m_firedCycle := m_firedCycle s @ map (\<lambda>n. t) fired,
           m_firedNeuron := m_firedNeuron s @ map globalIdx fired\<rparr>)"

text \<open>
  \<open>deliverSpikesOne\<close>: \<open>getRow\<close> is \<open>m_cm.at(addressOf(source, delay))\<close>, and the loop adds
  each terminal's weight with \<open>m_current.at(terminal.target) += terminal.weight\<close>, the
  built-in addition of \<open>fix_t\<close>, that is of signed 32-bit integers (\<open>fix_add\<close>): it has a
  result when the sum fits the type and is undefined when it does not.
\<close>

definition fix_add :: "fix_t \<Rightarrow> fix_t \<Rightarrow> fix_t option" where
  "fix_add a b =
     (let exact = sint a + sint b
      in if - (2 ^ 31) \<le> exact \<and> exact < 2 ^ 31 then Some (a + b) else None)"

fun deliverTerminals :: "Row \<Rightarrow> 'r Simulation \<Rightarrow> 'r Simulation outcome" where
  "deliverTerminals [] s = Done s"
| "deliverTerminals (terminal # rest) s =
     (if target terminal < length (m_current s)
      then (case fix_add (m_current s ! target terminal) (weight terminal) of
              Some acc \<Rightarrow>
                deliverTerminals rest
                  (s\<lparr>m_current := (m_current s)[target terminal := acc]\<rparr>)
            | None \<Rightarrow> Undefined)
      else Thrown std_out_of_range s)"

definition deliverSpikesOne :: "nat \<Rightarrow> nat \<Rightarrow> 'r Simulation \<Rightarrow> 'r Simulation outcome" where
  "deliverSpikesOne source delay s =
     (if addressOf (m_cm s) source delay < length (m_rows (m_cm s))
      then deliverTerminals (m_rows (m_cm s) ! addressOf (m_cm s) source delay) s
      else Thrown std_out_of_range s)"

text \<open>
  \<open>deliverSpikes\<close>. The inner loop \<open>while(f)\<close> is \<open>deliverDelays\<close>; a shift \<open>f >> shift\<close>
  with \<open>shift = 64\<close> is undefined. The mask \<open>validSpikes\<close> is
  \<open>~(((uint64_t) (~0)) << m_cm.maxDelay())\<close>, undefined when the largest delay is 64 or
  more.
\<close>

function deliverDelays :: "nat \<Rightarrow> 64 word \<Rightarrow> nat \<Rightarrow> 'r Simulation \<Rightarrow> 'r Simulation outcome" where
  "deliverDelays source f delay s =
     (if f = 0 then Done s
      else
        let shift = 1 + ctz64 f;
            delay = delay + shift
        in if shift < 64
           then (case deliverSpikesOne source delay s of
                   Done s' \<Rightarrow> deliverDelays source (drop_bit shift f) delay s'
                 | Thrown e s' \<Rightarrow> Thrown e s'
                 | Undefined \<Rightarrow> Undefined)
           else Undefined)"
  by pat_completeness auto
termination
proof (relation "measure (\<lambda>(source, f, delay, s). unat f)")
  show "wf (measure (\<lambda>(source, f, delay, s). unat f))" by simp
next
  fix source :: nat and f :: "64 word" and delay :: nat and s :: "'r Simulation"
    and shift delay' :: nat and s' :: "'r Simulation"
  assume "f \<noteq> 0" and "shift = 1 + ctz64 f"
  then have "unat f \<noteq> 0" by (simp add: unat_eq_0)
  moreover have "0 < shift"
    using \<open>shift = 1 + ctz64 f\<close> by simp
  then have "(1::nat) < 2 ^ shift"
    by (intro one_less_power) simp_all
  ultimately have "unat f div 2 ^ shift < unat f"
    by (intro div_less_dividend) simp_all
  then show "((source, drop_bit shift f, delay', s'), (source, f, delay, s))
      \<in> measure (\<lambda>(source, f, delay, s). unat f)"
    by (simp add: unat_drop_bit_eq drop_bit_nat_def)
qed

declare deliverDelays.simps [simp del]

fun deliverSources :: "64 word \<Rightarrow> nat list \<Rightarrow> 'r Simulation \<Rightarrow> 'r Simulation outcome" where
  "deliverSources validSpikes [] s = Done s"
| "deliverSources validSpikes (source # rest) s =
     bind_outcome (deliverDelays source (m_recentFiring s ! source AND validSpikes) 0 s)
       (deliverSources validSpikes rest)"

definition deliverSpikes :: "'r Simulation \<Rightarrow> 'r Simulation outcome" where
  "deliverSpikes s =
     (if m_maxDelay (m_cm s) < 64
      then deliverSources (NOT (push_bit (m_maxDelay (m_cm s)) (NOT 0)))
             [0..<m_neuronCount s] s
      else Undefined)"

text \<open>\<open>step\<close>; the caller has set the firing stimulus with \<open>setFiringStimulus\<close> before.\<close>

definition step :: "('r \<Rightarrow> fp \<times> 'r) \<Rightarrow> (nat \<Rightarrow> nat) \<Rightarrow> 'r Simulation \<Rightarrow> 'r Simulation outcome" where
  "step gaussian globalIdx s =
     bind_outcome (deliverSpikes s) (\<lambda>s.
     bind_outcome (update gaussian s) (\<lambda>s.
       let s = setFiring globalIdx s;
           s = s\<lparr>m_timer := m_timer s + 1\<rparr>
       in Done (s\<lparr>m_fstim := replicate (length (m_fstim s)) 0\<rparr>)))"

text \<open>\<open>applyStdp\<close>: the only statement throws.\<close>

definition applyStdp :: "real \<Rightarrow> 'r Simulation \<Rightarrow> 'r Simulation outcome" where
  "applyStdp reward s = Thrown NEMO_API_UNSUPPORTED s"

text \<open>One cycle as the API offers it: the stimulus, then the step.\<close>

definition cycle ::
  "('r \<Rightarrow> fp \<times> 'r) \<Rightarrow> (nat \<Rightarrow> nat) \<Rightarrow> (nat \<Rightarrow> nat) \<Rightarrow> nat list \<Rightarrow> 'r Simulation \<Rightarrow>
   'r Simulation outcome" where
  "cycle gaussian localIdx globalIdx fstim s =
     bind_outcome (setFiringStimulus localIdx fstim s) (step gaussian globalIdx)"

fun run ::
  "('r \<Rightarrow> fp \<times> 'r) \<Rightarrow> (nat \<Rightarrow> nat) \<Rightarrow> (nat \<Rightarrow> nat) \<Rightarrow> nat list list \<Rightarrow> 'r Simulation \<Rightarrow>
   'r Simulation outcome" where
  "run gaussian localIdx globalIdx [] s = Done s"
| "run gaussian localIdx globalIdx (fstim # rest) s =
     bind_outcome (cycle gaussian localIdx globalIdx fstim s)
       (run gaussian localIdx globalIdx rest)"

subsection \<open>Notions used in the statements\<close>

text \<open>
  One sub-step on the pair of potential and recovery variable, with the operations of the
  code written out.
\<close>

definition euler_step :: "fp \<Rightarrow> fp \<Rightarrow> fp \<Rightarrow> fp \<times> fp \<Rightarrow> fp \<times> fp" where
  "euler_step a b I = (\<lambda>(v, u).
     let v' = float_of
                (dadd v
                  (dmul (Finite 0.25)
                    (dadd
                      (dsub (dadd (dmul (dadd (dmul (to_double 0.04) v) (Finite 5)) v)
                         (Finite 140)) u)
                      I)))
     in (v', float_of (dadd u (dmul (Finite 0.25) (fmul a (fsub (fmul b v') u))))))"

text \<open>
  The result of the four sub-steps for neuron \<open>n\<close> in state \<open>s\<close>: the potential, the
  recovery variable and the firing flag before the stimulus is or-ed in.
\<close>

definition integrated :: "('r \<Rightarrow> fp \<times> 'r) \<Rightarrow> 'r Simulation \<Rightarrow> nat \<Rightarrow> fp \<times> fp \<times> 32 word" where
  "integrated g s n = integrate (m_a s ! n) (m_b s ! n) (input_current g s n) (m_v s ! n) (m_u s ! n)"

text \<open>
  Whether neuron \<open>n\<close> fired at cycle \<open>c\<close> of a run (cycles count from 0): its flag in
  \<open>m_fired\<close> after the first \<open>c + 1\<close> cycles. \<open>history_after\<close> is its recent-firing word
  after all cycles of the run, that is at the start of the cycle that follows.
\<close>

definition firedAt ::
  "('r \<Rightarrow> fp \<times> 'r) \<Rightarrow> (nat \<Rightarrow> nat) \<Rightarrow> (nat \<Rightarrow> nat) \<Rightarrow> nat list list \<Rightarrow> 'r Simulation \<Rightarrow>
   nat \<Rightarrow> nat \<Rightarrow> bool" where
  "firedAt g l gi stims s0 n c =
     (case run g l gi (take (Suc c) stims) s0 of
        Done s \<Rightarrow> m_fired s ! n \<noteq> 0
      | Thrown e s \<Rightarrow> False
      | Undefined \<Rightarrow> False)"

definition history_after ::
  "('r \<Rightarrow> fp \<times> 'r) \<Rightarrow> (nat \<Rightarrow> nat) \<Rightarrow> (nat \<Rightarrow> nat) \<Rightarrow> nat list list \<Rightarrow> 'r Simulation \<Rightarrow>
   nat \<Rightarrow> 64 word option" where
  "history_after g l gi stims s0 n =
     (case run g l gi stims s0 of
        Done s \<Rightarrow> Some (m_recentFiring s ! n)
      | Thrown e s \<Rightarrow> None
      | Undefined \<Rightarrow> None)"

text \<open>
  Saturating addition of fixed-point numbers as the spec words it: the exact sum where it
  fits 32 bits in two's complement, the nearest extreme where it does not.
\<close>

definition saturating_add :: "fix_t \<Rightarrow> fix_t \<Rightarrow> fix_t" where
  "saturating_add a b = word_of_int (max (- (2 ^ 31)) (min (2 ^ 31 - 1) (sint a + sint b)))"

text \<open>
  Delivery as the spec words it: for each source in turn, every delay \<open>d\<close> from 1 to the
  largest delay whose bit \<open>d - 1\<close> of the recent-firing word is set, in increasing order,
  has the row of that source and delay delivered.
\<close>

fun deliverAll :: "nat \<Rightarrow> nat list \<Rightarrow> 'r Simulation \<Rightarrow> 'r Simulation outcome" where
  "deliverAll source [] s = Done s"
| "deliverAll source (delay # delays) s =
     bind_outcome (deliverSpikesOne source delay s) (deliverAll source delays)"

definition due_delays :: "64 word \<Rightarrow> nat \<Rightarrow> nat list" where
  "due_delays history maxDelay = filter (\<lambda>d. bit history (d - 1)) [1..<maxDelay + 1]"

fun spec_deliverSources :: "nat \<Rightarrow> nat list \<Rightarrow> 'r Simulation \<Rightarrow> 'r Simulation outcome" where
  "spec_deliverSources maxDelay [] s = Done s"
| "spec_deliverSources maxDelay (source # rest) s =
     bind_outcome
       (deliverAll source (due_delays (m_recentFiring s ! source) maxDelay) s)
       (spec_deliverSources maxDelay rest)"

definition spec_deliverSpikes :: "'r Simulation \<Rightarrow> 'r Simulation outcome" where
  "spec_deliverSpikes s = spec_deliverSources (m_maxDelay (m_cm s)) [0..<m_neuronCount s] s"

subsection \<open>Relations between states used in the proofs\<close>

text \<open>
  \<open>same_static\<close>: what the update of the neurons leaves alone. \<open>view\<close>: the entries of one
  neuron in the vectors the update writes. \<open>only_current\<close> and \<open>only_fstim\<close>: states that
  differ in the current accumulators, or in the stimulus flags, at most. \<open>ready\<close>: a
  well-formed state with all stimulus flags clear, as the constructor and \<open>step\<close> leave it.
\<close>

definition same_static :: "'r Simulation \<Rightarrow> 'r Simulation \<Rightarrow> bool" where
  "same_static s s' \<longleftrightarrow>
     m_neuronCount s' = m_neuronCount s \<and> m_a s' = m_a s \<and> m_b s' = m_b s \<and>
     m_c s' = m_c s \<and> m_d s' = m_d s \<and> m_sigma s' = m_sigma s \<and> m_valid s' = m_valid s \<and>
     m_cm s' = m_cm s \<and> m_fstim s' = m_fstim s \<and> m_lastFlush s' = m_lastFlush s \<and>
     m_stdp_enabled s' = m_stdp_enabled s \<and> m_timer s' = m_timer s \<and>
     m_firedCycle s' = m_firedCycle s \<and> m_firedNeuron s' = m_firedNeuron s \<and>
     length (m_u s') = length (m_u s) \<and> length (m_v s') = length (m_v s) \<and>
     length (m_fired s') = length (m_fired s) \<and>
     length (m_recentFiring s') = length (m_recentFiring s) \<and>
     length (m_current s') = length (m_current s) \<and> length (m_rng s') = length (m_rng s)"

definition view :: "'r Simulation \<Rightarrow> nat \<Rightarrow> fp \<times> fp \<times> 32 word \<times> 64 word \<times> fix_t \<times> 'r" where
  "view s n = (m_v s ! n, m_u s ! n, m_fired s ! n, m_recentFiring s ! n, m_current s ! n, m_rng s ! n)"

definition only_current :: "'r Simulation \<Rightarrow> 'r Simulation \<Rightarrow> bool" where
  "only_current s s' \<longleftrightarrow>
     s' = s\<lparr>m_current := m_current s'\<rparr> \<and> length (m_current s') = length (m_current s)"

definition only_fstim :: "'r Simulation \<Rightarrow> 'r Simulation \<Rightarrow> bool" where
  "only_fstim s s' \<longleftrightarrow>
     s' = s\<lparr>m_fstim := m_fstim s'\<rparr> \<and> length (m_fstim s') = length (m_fstim s) \<and>
     (\<forall>j < length (m_fstim s). m_fstim s' ! j = m_fstim s ! j \<or> m_fstim s' ! j = 1)"

definition ready :: "'r Simulation \<Rightarrow> bool" where
  "ready s \<longleftrightarrow> wf_Simulation s \<and> m_fstim s = replicate (m_neuronCount s) 0"

subsection \<open>Example states\<close>

text \<open>
  Two regular-spiking neurons and one synapse from neuron 0 to neuron 1 with delay 1 and
  weight 20, which is 5120 with 8 fractional bits. \<open>example_stimulated\<close> is the state
  after \<open>setFiringStimulus\<close> for neuron 0, \<open>example_next\<close> the state after the step that
  follows. \<open>example_saturated\<close> has the accumulator of neuron 1 at the largest \<open>fix_t\<close>.
  \<open>example_rounding\<close> is one neuron at the potential -48 with the input current
  45564076 / 2^20, about 43.45, and 20 fractional bits.
  \<open>example_delay64\<close> has its one synapse at delay 64, and neuron 0 fired 64 cycles ago.
\<close>

definition empty_ConnectivityMatrix :: ConnectivityMatrix where
  "empty_ConnectivityMatrix =
     \<lparr>m_fractionalBits = 8, m_acc = (\<lambda>k. None), m_rows = [], m_delays = (\<lambda>source. {}),
      m_maxDelay = 0\<rparr>"

definition example_ConnectivityMatrix :: ConnectivityMatrix where
  "example_ConnectivityMatrix =
     \<lparr>m_fractionalBits = 8,
      m_acc = [(0, 1) \<mapsto> [\<lparr>weight = 5120, target = 1\<rparr>]],
      m_rows = [[\<lparr>weight = 5120, target = 1\<rparr>], []],
      m_delays = (\<lambda>source. {})(0 := {1}),
      m_maxDelay = 1\<rparr>"

definition example_Simulation :: "unit Simulation" where
  "example_Simulation =
     \<lparr>m_neuronCount = 2,
      m_a = [to_float 0.02, to_float 0.02], m_b = [to_float 0.2, to_float 0.2],
      m_c = [Finite (- 65), Finite (- 65)], m_d = [Finite 8, Finite 8],
      m_u = [Finite (- 13), Finite (- 13)], m_v = [Finite (- 65), Finite (- 65)],
      m_sigma = [Finite 0, Finite 0],
      m_valid = [True, True], m_fired = [0, 0], m_recentFiring = [0, 0],
      m_cm = example_ConnectivityMatrix,
      m_current = [0, 0], m_fstim = [0, 0], m_rng = [(), ()],
      m_lastFlush = 0, m_stdp_enabled = False, m_timer = 0,
      m_firedCycle = [], m_firedNeuron = []\<rparr>"

definition example_stimulated :: "unit Simulation" where
  "example_stimulated = example_Simulation\<lparr>m_fstim := [1, 0]\<rparr>"

definition example_next :: "unit Simulation" where
  "example_next =
     (setFiring id (updateRange (\<lambda>r. (Finite 0, r)) 0 2 example_stimulated))
       \<lparr>m_timer := 1, m_fstim := [0, 0]\<rparr>"

definition example_rounding :: "unit Simulation" where
  "example_rounding =
     \<lparr>m_neuronCount = 1,
      m_a = [Finite 0], m_b = [Finite 0], m_c = [Finite (- 65)], m_d = [Finite 8],
      m_u = [Finite 0], m_v = [Finite (- 48)], m_sigma = [Finite 0],
      m_valid = [True], m_fired = [0], m_recentFiring = [0],
      m_cm = empty_ConnectivityMatrix\<lparr>m_fractionalBits := 20\<rparr>,
      m_current = [45564076], m_fstim = [0], m_rng = [()],
      m_lastFlush = 0, m_stdp_enabled = False, m_timer = 0,
      m_firedCycle = [], m_firedNeuron = []\<rparr>"

definition example_saturated :: "unit Simulation" where
  "example_saturated = example_Simulation\<lparr>m_current := [0, 0x7FFFFFFF]\<rparr>"

definition example_delay64 :: "unit Simulation" where
  "example_delay64 =
     example_Simulation
       \<lparr>m_cm := example_ConnectivityMatrix
          \<lparr>m_acc := [(0, 64) \<mapsto> [\<lparr>weight = 5120, target = 1\<rparr>]],
           m_rows := replicate 63 [] @ [[\<lparr>weight = 5120, target = 1\<rparr>]] @ replicate 64 [],
           m_delays := (\<lambda>source. {})(0 := {64}),
           m_maxDelay := 64\<rparr>,
        m_recentFiring := [push_bit 63 1, 0]\<rparr>"

section \<open>Properties of the rounding\<close>

text \<open>
  \<open>pow2\<close> is the power of two, \<open>ilog2\<close> with enough fuel finds the exponent of its
  argument, which is \<open>\<lfloor>log 2 x\<rfloor>\<close>, and a finite result of \<open>round_to\<close> is within half a unit
  in the last place of the number rounded.
\<close>

lemma pow2_powr: "pow2 e = 2 powr real_of_int e"
proof (cases "0 \<le> e")
  case True
  then have "2 powr real_of_int e = (2::real) powr real (nat e)" by simp
  also have "\<dots> = 2 ^ nat e" by (simp add: powr_realpow)
  finally show ?thesis
    using True by (simp add: pow2_def)
next
  case False
  then have "2 powr real_of_int e = (2::real) powr (- real (nat (- e)))" by simp
  also have "\<dots> = 1 / 2 powr real (nat (- e))" by (simp only: powr_minus_divide)
  also have "\<dots> = 1 / 2 ^ nat (- e)" by (simp add: powr_realpow)
  finally show ?thesis
    using False by (simp add: pow2_def)
qed

lemma pow2_le_iff: "pow2 a \<le> pow2 b \<longleftrightarrow> a \<le> b"
  by (simp add: pow2_powr)

lemma pow2_less_iff: "pow2 a < pow2 b \<longleftrightarrow> a < b"
  by (simp add: pow2_powr)

lemma pow2_Suc: "pow2 (e + 1) = 2 * pow2 e"
  by (simp add: pow2_powr powr_add)

lemma pow2_pred: "pow2 (e - 1) = pow2 e / 2"
  using pow2_Suc [of "e - 1"] by simp

lemma pow2_0: "pow2 0 = 1" "pow2 1 = 2"
  by (simp_all add: pow2_def)

lemma ilog2_correct:
  "pow2 e \<le> x \<Longrightarrow> x < pow2 (e + 1) \<Longrightarrow> nat \<bar>e\<bar> < fuel \<Longrightarrow> ilog2 fuel x = e"
proof (induction fuel arbitrary: x e)
  case 0
  then show ?case by simp
next
  case (Suc fuel)
  consider "2 \<le> x" | "x < 1" | "1 \<le> x" "x < 2"
    by linarith
  then show ?case
  proof cases
    case 1
    with Suc.prems(2) have "pow2 1 < pow2 (e + 1)"
      by (simp add: pow2_0)
    then have e: "1 \<le> e" by (simp add: pow2_less_iff)
    have "pow2 (e - 1) \<le> x / 2" "x / 2 < pow2 (e - 1 + 1)"
      using Suc.prems(1,2) by (simp_all add: pow2_pred pow2_Suc)
    moreover have "nat \<bar>e - 1\<bar> < fuel"
      using e Suc.prems(3) by simp
    ultimately have "ilog2 fuel (x / 2) = e - 1"
      by (rule Suc.IH)
    with 1 show ?thesis
      by (simp add: ilog2.simps [of "Suc fuel"])
  next
    case 2
    with Suc.prems(1) have "pow2 e < pow2 0"
      by (simp add: pow2_0)
    then have e: "e < 0" by (simp add: pow2_less_iff)
    have "pow2 (e + 1 + 1) = 2 * pow2 (e + 1)"
      by (rule pow2_Suc)
    then have "pow2 (e + 1) \<le> 2 * x" "2 * x < pow2 (e + 1 + 1)"
      using Suc.prems(1,2) by (simp_all only: pow2_Suc)
    moreover have "nat \<bar>e + 1\<bar> < fuel"
      using e Suc.prems(3) by simp
    ultimately have "ilog2 fuel (2 * x) = e + 1"
      by (rule Suc.IH)
    with 2 show ?thesis
      by (simp add: ilog2.simps [of "Suc fuel"])
  next
    case 3
    from 3(2) Suc.prems(1) have "pow2 e < pow2 1"
      by (simp add: pow2_0)
    then have "e < 1" by (simp add: pow2_less_iff)
    moreover from 3(1) Suc.prems(2) have "pow2 0 < pow2 (e + 1)"
      by (simp add: pow2_0)
    then have "0 < e + 1" by (simp add: pow2_less_iff)
    ultimately have "e = 0" by simp
    with 3 show ?thesis
      by (simp add: ilog2.simps [of "Suc fuel"])
  qed
qed

lemma ilog2_floor_log:
  assumes "0 < x" and "nat \<bar>\<lfloor>log 2 x\<rfloor>\<bar> < fuel"
  shows "ilog2 fuel x = \<lfloor>log 2 x\<rfloor>"
proof -
  let ?e = "\<lfloor>log 2 x\<rfloor>"
  have "real_of_int ?e \<le> log 2 x" "log 2 x < real_of_int (?e + 1)"
    by linarith+
  then have "2 powr real_of_int ?e \<le> x" "x < 2 powr real_of_int (?e + 1)"
    using assms(1) by (simp_all add: le_log_iff log_less_iff powr_le_iff less_powr_iff)
  then show ?thesis
    using assms(2) by (intro ilog2_correct) (simp_all add: pow2_powr)
qed

lemma round_even_near: "\<bar>real_of_int (round_even x) - x\<bar> \<le> 1 / 2"
proof -
  have "real_of_int \<lfloor>x\<rfloor> \<le> x" "x < real_of_int \<lfloor>x\<rfloor> + 1"
    by linarith+
  then show ?thesis
    by (auto simp: round_even_def Let_def)
qed

lemma pow2_pos: "0 < pow2 e"
  by (simp add: pow2_powr)

lemma round_to_near:
  assumes "round_to p emin emax x = Finite y"
  shows "\<bar>y - x\<bar>
     \<le> pow2 ((if \<bar>x\<bar> < pow2 emin then emin else ilog2 (nat (emax - emin) + 1) \<bar>x\<bar>)
           - int p + 1) / 2"
proof (cases "x = 0")
  case True
  with assms have "y = 0" by (simp add: round_to_def)
  with True show ?thesis
    by (simp add: less_imp_le [OF pow2_pos])
next
  case False
  define e where
    "e = (if \<bar>x\<bar> < pow2 emin then emin else ilog2 (nat (emax - emin) + 1) \<bar>x\<bar>)"
  define ulp where "ulp = pow2 (e - int p + 1)"
  define k where "k = real_of_int (round_even (\<bar>x\<bar> / ulp))"
  have ulp: "0 < ulp" unfolding ulp_def by (rule pow2_pos)
  from assms False have y: "y = (if x < 0 then - (k * ulp) else k * ulp)"
    by (simp add: round_to_def Let_def e_def ulp_def k_def split: if_splits)
  have "k * ulp - \<bar>x\<bar> = (k - \<bar>x\<bar> / ulp) * ulp"
    using ulp by (simp add: field_simps)
  then have "\<bar>k * ulp - \<bar>x\<bar>\<bar> = \<bar>k - \<bar>x\<bar> / ulp\<bar> * ulp"
    using ulp by (simp only: abs_mult)
  moreover have "\<bar>y - x\<bar> = \<bar>k * ulp - \<bar>x\<bar>\<bar>"
    unfolding y by (cases "x < 0") simp_all
  moreover have "\<bar>k - \<bar>x\<bar> / ulp\<bar> * ulp \<le> 1 / 2 * ulp"
    using ulp round_even_near [of "\<bar>x\<bar> / ulp"] unfolding k_def
    by (intro mult_right_mono) simp_all
  ultimately have "\<bar>y - x\<bar> \<le> ulp / 2" by simp
  then show ?thesis
    unfolding ulp_def e_def .
qed

section \<open>Properties of the CUDA back end\<close>

subsection \<open>The cycle counter\<close>

lemma unat_succ_32: "(c :: 32 word) \<noteq> NOT 0 \<Longrightarrow> unat (c + 1) = unat c + 1"
proof -
  assume ne: "c \<noteq> NOT 0"
  have lt: "unat c < 2 ^ 32"
    using unsigned_less [of c, where 'a = nat] by simp
  have m: "unat (NOT 0 :: 32 word) = 2 ^ 32 - 1"
    by (simp add: unsigned_minus_1_eq_mask mask_eq_exp_minus_1)
  from ne have "unat c \<noteq> unat (NOT 0 :: 32 word)"
    by (simp only: word_unat_eq_iff not_False_eq_True)
  with m lt have "unat c + 1 < 2 ^ 32" by simp
  then show ?thesis by (simp add: unat_word_ariths)
qed

lemma cuda_step_Done_cycle:
  assumes "cuda_step ds fstim s = Done s'"
  shows "unat (m_cycle s') = unat (m_cycle s) + 1"
proof -
  from assms have ne: "m_cycle s \<noteq> NOT 0"
    by (auto simp: cuda_step_def)
  from assms ne have "m_cycle s' = m_cycle s + 1"
    by (auto simp: cuda_step_def Let_def split: outcome.splits)
  with ne show ?thesis by (simp add: unat_succ_32)
qed

lemma cuda_run_Done_cycle:
  "cuda_run ds stims s = Done s' \<Longrightarrow> unat (m_cycle s') = unat (m_cycle s) + length stims"
proof (induction stims arbitrary: s)
  case Nil
  then show ?case by simp
next
  case (Cons fstim rest)
  then obtain s1 where s1: "cuda_step ds fstim s = Done s1" and r: "cuda_run ds rest s1 = Done s'"
    by (cases "cuda_step ds fstim s") auto
  from Cons.IH [OF r] cuda_step_Done_cycle [OF s1] show ?case by simp
qed

lemma startSimulation_cycle: "m_cycle_rt (startSimulation mv r) = m_cycle_rt r"
  by (simp add: startSimulation_def split_beta)

lemma stepSimulation_Done_cycle:
  assumes "stepSimulation mv ds fstim r = Done r'"
  shows "unat (m_cycle_rt r') = unat (m_cycle_rt r) + 1"
proof -
  have c: "m_cycle_rt (startSimulation mv r) = m_cycle_rt r"
    by (rule startSimulation_cycle)
  from assms have ne: "m_cycle_rt r \<noteq> NOT 0"
    by (auto simp: stepSimulation_def Let_def c)
  from assms ne have "m_cycle_rt r' = m_cycle_rt r + 1"
    by (auto simp: stepSimulation_def Let_def c split: outcome.splits prod.splits)
  with ne show ?thesis by (simp add: unat_succ_32)
qed

text \<open>
  C10. Each call of \<open>step\<close> that returns has incremented the 32-bit cycle counter by
  exactly one, without wrapping. When the counter holds its maximum \<open>2^32 - 1\<close>, the call
  throws \<open>std::overflow_error\<close> and the simulation is left as it was (for \<open>RuntimeData\<close>, as
  \<open>startSimulation\<close> leaves it, which is unchanged once the network is on the device).
  Hence a run that starts at cycle 0 and in which every step returns has as many steps as
  the counter shows, at most \<open>2^32 - 1\<close>.
\<close>

theorem step_cycle_counter:
  "(cuda_step ds fstim s = Done s' \<longrightarrow> unat (m_cycle s') = unat (m_cycle s) + 1)
   \<and> (m_cycle t = NOT 0 \<longrightarrow> cuda_step ds fstim t = Thrown std_overflow_error t)
   \<and> (m_cycle s0 = 0 \<and> cuda_run ds stims s0 = Done sn \<longrightarrow>
        unat (m_cycle sn) = length stims \<and> length stims \<le> 2 ^ 32 - 1)
   \<and> (stepSimulation mv rs fstim r = Done r' \<longrightarrow> unat (m_cycle_rt r') = unat (m_cycle_rt r) + 1)
   \<and> (m_cycle_rt q = NOT 0 \<longrightarrow>
        stepSimulation mv rs fstim q = Thrown std_overflow_error (startSimulation mv q))
   \<and> (\<not> m_deviceDirty q \<longrightarrow> startSimulation mv q = q)"
proof (intro conjI impI)
  assume "cuda_step ds fstim s = Done s'"
  then show "unat (m_cycle s') = unat (m_cycle s) + 1" by (rule cuda_step_Done_cycle)
next
  assume "m_cycle t = NOT 0"
  then show "cuda_step ds fstim t = Thrown std_overflow_error t" by (simp add: cuda_step_def)
next
  assume a: "m_cycle s0 = 0 \<and> cuda_run ds stims s0 = Done sn"
  with cuda_run_Done_cycle [of ds stims s0 sn]
  show n: "unat (m_cycle sn) = length stims" by simp
  have "unat (m_cycle sn) < 2 ^ 32"
    using unsigned_less [of "m_cycle sn", where 'a = nat] by simp
  with n show "length stims \<le> 2 ^ 32 - 1" by simp
next
  assume "stepSimulation mv rs fstim r = Done r'"
  then show "unat (m_cycle_rt r') = unat (m_cycle_rt r) + 1" by (rule stepSimulation_Done_cycle)
next
  assume "m_cycle_rt q = NOT 0"
  then show "stepSimulation mv rs fstim q = Thrown std_overflow_error (startSimulation mv q)"
    by (simp add: stepSimulation_def Let_def startSimulation_cycle)
next
  assume "\<not> m_deviceDirty q"
  then show "startSimulation mv q = q" by (simp add: startSimulation_def)
qed

theorem step_cycle_counter_witness:
  "cuda_step (\<lambda>stdp c f d. Done d) [] (example_cuda_Simulation 5) = Done (example_cuda_Simulation 6)
   \<and> unat (m_cycle (example_cuda_Simulation 6)) = unat (m_cycle (example_cuda_Simulation 5)) + 1
   \<and> m_cycle (example_cuda_Simulation (NOT 0)) = NOT 0
   \<and> cuda_step (\<lambda>stdp c f d. Done d) [] (example_cuda_Simulation (NOT 0))
       = Thrown std_overflow_error (example_cuda_Simulation (NOT 0))
   \<and> cuda_run (\<lambda>stdp c f d. Done d) [[], [0]] (example_cuda_Simulation 0)
       = Done (example_cuda_Simulation 2)
   \<and> unat (m_cycle (example_cuda_Simulation 2)) = length [[], [0::nat]]
   \<and> stepSimulation id (\<lambda>stdp c f d. Done (d, KERNEL_OK)) [] (example_RuntimeData 5)
       = Done (example_RuntimeData 6)
   \<and> unat (m_cycle_rt (example_RuntimeData 6)) = unat (m_cycle_rt (example_RuntimeData 5)) + 1
   \<and> stepSimulation id (\<lambda>stdp c f d. Done (d, KERNEL_OK)) [] (example_RuntimeData (NOT 0))
       = Thrown std_overflow_error (example_RuntimeData (NOT 0))
   \<and> \<not> m_deviceDirty (example_RuntimeData (NOT 0))"
  using step_cycle_counter [of "\<lambda>stdp c f d. Done d" "[]"
      "example_cuda_Simulation 5" "example_cuda_Simulation 6"
      "example_cuda_Simulation (NOT 0)"
      "example_cuda_Simulation 0" "[[], [0]]" "example_cuda_Simulation 2"
      id "\<lambda>stdp c f d. Done (d, KERNEL_OK)"
      "example_RuntimeData 5" "example_RuntimeData 6" "example_RuntimeData (NOT 0)"]
  by (simp add: cuda_step_def stepSimulation_def startSimulation_def Let_def
      example_cuda_Simulation_def example_RuntimeData_def usingStdp_def usingStdp_rt_def)

subsection \<open>Applying STDP\<close>

lemma clearStdpAccumulator_zero:
  "m_rsynapses (clearStdpAccumulator cm) tp = Some r \<Longrightarrow> acc \<in> set (d_stdp r tn) \<Longrightarrow> acc = 0"
  by (auto simp: clearStdpAccumulator_def RSMatrix_clearStdpAccumulator_def)

lemma clearStdpAccumulator_weights:
  "md_fcm (clearStdpAccumulator cm) = md_fcm cm \<and> mh_fcm (clearStdpAccumulator cm) = mh_fcm cm"
  by (simp add: clearStdpAccumulator_def)

text \<open>
  C5. On a simulation with STDP configured, \<open>applyStdp\<close> with reward 0.0 takes the branch
  that calls \<open>clearStdpAccumulator\<close>: the call returns, unless the device assertion check
  that follows throws, and in the state it leaves the weights, on the device and on the
  host, are those of before, and every accumulator of every reverse matrix is zero.
\<close>

theorem applyStdp_zero_reward:
  assumes "usingStdp_impl s"
  shows "\<exists>s'. state_of (SimulationImpl_applyStdp k check 0 s) = Some s'
     \<and> (\<not> check s' \<longrightarrow> SimulationImpl_applyStdp k check 0 s = Done s')
     \<and> md_fcm (m_cm_impl s') = md_fcm (m_cm_impl s)
     \<and> mh_fcm (m_cm_impl s') = mh_fcm (m_cm_impl s)
     \<and> (\<forall>tp r tn acc. m_rsynapses (m_cm_impl s') tp = Some r \<and> acc \<in> set (d_stdp r tn) \<longrightarrow> acc = 0)"
proof -
  let ?s' = "s\<lparr>m_cm_impl := clearStdpAccumulator (m_cm_impl s)\<rparr>"
  have "state_of (SimulationImpl_applyStdp k check 0 s) = Some ?s'"
    using assms by (simp add: SimulationImpl_applyStdp_def)
  moreover have "\<not> check ?s' \<longrightarrow> SimulationImpl_applyStdp k check 0 s = Done ?s'"
    using assms by (simp add: SimulationImpl_applyStdp_def)
  moreover have "\<forall>tp r tn acc. m_rsynapses (m_cm_impl ?s') tp = Some r \<and> acc \<in> set (d_stdp r tn) \<longrightarrow> acc = 0"
    using clearStdpAccumulator_zero by fastforce
  ultimately show ?thesis
    using clearStdpAccumulator_weights [of "m_cm_impl s"] by (intro exI [of _ ?s']) simp
qed

theorem applyStdp_zero_reward_witness:
  "usingStdp_impl (example_SimulationImpl True)
   \<and> SimulationImpl_applyStdp (\<lambda>pc fb mx mn rw cm. cm) (\<lambda>s. False) 0 (example_SimulationImpl True)
       = Done ((example_SimulationImpl True)
           \<lparr>m_cm_impl := clearStdpAccumulator example_plastic_cm\<rparr>)
   \<and> md_fcm (clearStdpAccumulator example_plastic_cm) = [256]
   \<and> map_option (\<lambda>r. d_stdp r 1) (m_rsynapses example_plastic_cm 0) = Some [5]
   \<and> map_option (\<lambda>r. d_stdp r 1) (m_rsynapses (clearStdpAccumulator example_plastic_cm) 0)
       = Some [0]"
  using applyStdp_zero_reward [of "example_SimulationImpl True" "\<lambda>pc fb mx mn rw cm. cm"
      "\<lambda>s. False"]
  by (simp add: usingStdp_impl_def example_SimulationImpl_def example_stdp_def
      SimulationImpl_applyStdp_def clearStdpAccumulator_def example_plastic_cm_def
      RSMatrix_clearStdpAccumulator_def)

text \<open>
  C6, amended. On the three CUDA classes \<open>applyStdp\<close> returns at once and changes
  nothing when no STDP function is enabled, for every reward. On the CPU back end
  \<open>applyStdp\<close> throws \<open>NEMO_API_UNSUPPORTED\<close> whatever the configuration and the reward,
  and leaves the simulation as it was.
\<close>

theorem applyStdp_without_stdp:
  "(\<not> usingStdp s \<longrightarrow> cuda_applyStdp k check reward s = Done s)
   \<and> (\<not> usingStdp_rt r \<longrightarrow> RuntimeData_applyStdp k' reward r = Done r)
   \<and> (\<not> usingStdp_impl i \<longrightarrow> SimulationImpl_applyStdp k check' reward i = Done i)
   \<and> applyStdp reward c = Thrown NEMO_API_UNSUPPORTED c"
  by (simp add: cuda_applyStdp_def RuntimeData_applyStdp_def SimulationImpl_applyStdp_def applyStdp_def)

theorem applyStdp_without_stdp_witness:
  "\<not> usingStdp (example_cuda_Simulation 0)
   \<and> cuda_applyStdp (\<lambda>pc fb mx mn rw cm. cm) (\<lambda>s. False) 1 (example_cuda_Simulation 0)
       = Done (example_cuda_Simulation 0)
   \<and> \<not> usingStdp_rt (example_RuntimeData 0)
   \<and> RuntimeData_applyStdp (\<lambda>pc fb fn rw cm. cm) 1 (example_RuntimeData 0)
       = Done (example_RuntimeData 0)
   \<and> \<not> usingStdp_impl (example_SimulationImpl False)
   \<and> SimulationImpl_applyStdp (\<lambda>pc fb mx mn rw cm. cm) (\<lambda>s. False) 1
        (example_SimulationImpl False)
       = Done (example_SimulationImpl False)"
  using applyStdp_without_stdp [of "example_cuda_Simulation 0" "\<lambda>pc fb mx mn rw cm. cm"
      "\<lambda>s. False" 1 "example_RuntimeData 0" "\<lambda>pc fb fn rw cm. cm"
      "example_SimulationImpl False" "\<lambda>s. False" example_Simulation]
  by (simp add: usingStdp_def usingStdp_rt_def usingStdp_impl_def example_cuda_Simulation_def
      example_RuntimeData_def example_SimulationImpl_def example_stdp_def)

text \<open>
  The claim as stated fails on the CPU back end: without STDP enabled the call throws.
\<close>

theorem applyStdp_cpu_counterexample:
  "\<not> m_stdp_enabled example_Simulation
   \<and> applyStdp 1 example_Simulation = Thrown NEMO_API_UNSUPPORTED example_Simulation"
  by (simp add: applyStdp_def example_Simulation_def)

subsection \<open>The fixed-point format\<close>

lemma log2_8: "log 2 (8::real) = 3"
proof -
  have "log 2 (8::real) = log 2 (2 ^ 3)" by simp
  also have "\<dots> = 3" by (simp only: log_pow_cancel)
  finally show ?thesis .
qed

text \<open>
  C7. The code keeps the largest weight in \<open>m_maxAbsWeight\<close> with
  \<open>std::max(m_maxAbsWeight, w)\<close>, without taking the absolute value. For the weights -8
  and 1 it holds 1, and \<open>setFractionalBits\<close> gives 26 fractional bits, where the largest
  absolute weight 8 gives 23; for the weights 8 and 1 the code gives 23 as well.
\<close>

theorem maxAbsWeight_without_abs:
  "state_of (map_outcome m_maxAbsWeight
       (addWeights [- 8, 1] (ConnectivityMatrix_cuda_new 1024 False))) = Some 1
   \<and> code_fractionalBits [- 8, 1] = Some 26
   \<and> spec_fractionalBits [- 8, 1] = 23
   \<and> code_fractionalBits [8, 1] = Some 23
   \<and> spec_fractionalBits [8, 1] = 23"
  by (simp add: code_fractionalBits_def addSynapse_def ConnectivityMatrix_cuda_new_def
      MAX_DELAY_def Let_def setFractionalBits_def uint_of_float_def spec_fractionalBits_def
      log2_8)

subsection \<open>Adding synapses\<close>

lemma addSynapse_Done:
  assumes "1 \<le> delay" "delay \<le> MAX_DELAY"
  shows "\<exists>cm'. addSynapse sp sn delay tp tn w plastic cm = Done cm'
     \<and> mh_fcm cm' (sp, sn) (tp, delay) = mh_fcm cm (sp, sn) (tp, delay) @ [(tn, w, plastic)]"
  using assms by (cases "m_setReverse cm \<and> plastic") (simp_all add: addSynapse_def Let_def)

text \<open>
  \<open>addSynapse\<close> of the CUDA connectivity matrix fails, before it has changed anything,
  when the delay is 0 or greater than \<open>MAX_DELAY\<close>, and with a delay in range it returns,
  the synapse appended to its bundle. \<open>setRow\<close> of the CPU connectivity matrix throws
  \<open>NEMO_INVALID_INPUT\<close> and changes nothing when the delay is below 1.
\<close>

lemma addSynapse_delay_check:
  "(delay = 0 \<or> delay > MAX_DELAY \<longrightarrow>
      addSynapse sp sn delay tp tn w plastic cm = Thrown ERROR cm)
   \<and> (1 \<le> delay \<and> delay \<le> MAX_DELAY \<longrightarrow>
      (\<exists>cm'. addSynapse sp sn delay tp tn w plastic cm = Done cm'
            \<and> mh_fcm cm' (sp, sn) (tp, delay) = mh_fcm cm (sp, sn) (tp, delay) @ [(tn, w, plastic)]))"
proof (intro conjI impI)
  assume "delay = 0 \<or> delay > MAX_DELAY"
  then show "addSynapse sp sn delay tp tn w plastic cm = Thrown ERROR cm"
    by (auto simp: addSynapse_def)
next
  assume "1 \<le> delay \<and> delay \<le> MAX_DELAY"
  then show "\<exists>cm'. addSynapse sp sn delay tp tn w plastic cm = Done cm'
      \<and> mh_fcm cm' (sp, sn) (tp, delay) = mh_fcm cm (sp, sn) (tp, delay) @ [(tn, w, plastic)]"
    by (simp add: addSynapse_Done)
qed

lemma setRow_delay_below_1:
  "delay < 1 \<Longrightarrow> setRow localIdx source delay ss cm = Thrown NEMO_INVALID_INPUT cm"
  by (simp add: setRow_def)

text \<open>
  C9. \<open>setRow\<close> tests the delay against 1 only. A row of delay 65, which is greater than
  \<open>MAX_DELAY\<close>, is accepted: the call returns, the row is in the matrix and 65 is its
  largest delay, where the claim has the call fail and the matrix unchanged. \<open>addSynapse\<close>
  of the CUDA connectivity matrix refuses the same delay.
\<close>

theorem setRow_delay_65:
  "MAX_DELAY < 65
   \<and> setRow id 0 65 [\<lparr>at_target = 1, at_weight = 20, at_plastic = False\<rparr>]
         empty_ConnectivityMatrix
       = Done (empty_ConnectivityMatrix
           \<lparr>m_acc := [(0, 65) \<mapsto> [\<lparr>weight = 5120, target = 1\<rparr>]],
            m_delays := (\<lambda>source. {})(0 := {65}),
            m_maxDelay := 65\<rparr>)
   \<and> addSynapse 0 0 65 0 1 20 False (ConnectivityMatrix_cuda_new 1024 False)
       = Thrown ERROR (ConnectivityMatrix_cuda_new 1024 False)"
  by (simp add: setRow_def empty_ConnectivityMatrix_def Row_of_def fx_toFix_def Let_def
      MAX_DELAY_def addSynapse_def)

section \<open>Properties of the CPU back end\<close>

subsection \<open>The update of one neuron\<close>

lemma integrate_unrolled:
  "integrate a b I v u =
     (let p1 = euler_step a b I (v, u); p2 = euler_step a b I p1;
          p3 = euler_step a b I p2; p4 = euler_step a b I p3
      in if fp_ge (fst p1) (Finite 30) then (fst p1, snd p1, 1)
         else if fp_ge (fst p2) (Finite 30) then (fst p2, snd p2, 1)
         else if fp_ge (fst p3) (Finite 30) then (fst p3, snd p3, 1)
         else (fst p4, snd p4, if fp_ge (fst p4) (Finite 30) then 1 else 0))"
proof -
  have quiet: "substep a b I (v, u, 0) =
      (fst (euler_step a b I (v, u)), snd (euler_step a b I (v, u)),
       if fp_ge (fst (euler_step a b I (v, u))) (Finite 30) then 1 else 0)" for v u
    by (simp add: substep_def euler_step_def SUBSTEP_MULT_def Let_def)
  have fired: "substep a b I (v, u, 1) = (v, u, 1)" for v u
    by (simp add: substep_def)
  have pair: "(fst p, snd p) = p" for p :: "fp \<times> fp"
    by simp
  show ?thesis
    by (simp add: integrate_def SUBSTEPS_def eval_nat_numeral quiet fired Let_def
        del: prod.collapse)
      (simp add: quiet fired pair)
qed

lemma integrate_fired: "snd (snd (integrate a b I v u)) = 0 \<or> snd (snd (integrate a b I v u)) = 1"
  by (simp add: integrate_unrolled Let_def split_beta)

lemma same_static_refl: "same_static s s"
  by (simp add: same_static_def)

lemma same_static_trans: "same_static s s' \<Longrightarrow> same_static s' s'' \<Longrightarrow> same_static s s''"
  by (simp add: same_static_def)

lemma updateNeuron_static: "same_static s (updateNeuron g n s)"
  by (simp add: updateNeuron_def same_static_def Let_def split_beta)

lemma updateNeuron_other: "m \<noteq> n \<Longrightarrow> view (updateNeuron g m s) n = view s n"
  by (simp add: updateNeuron_def view_def Let_def split_beta)

lemma fold_updateNeuron_static: "same_static s (fold (updateNeuron g) ns s)"
proof (induction ns arbitrary: s)
  case Nil show ?case by (simp add: same_static_refl)
next
  case (Cons n ns)
  show ?case using same_static_trans [OF updateNeuron_static Cons.IH] by simp
qed

lemma fold_updateNeuron_other:
  "n \<notin> set ns \<Longrightarrow> view (fold (updateNeuron g) ns s) n = view s n"
  by (induction ns arbitrary: s) (auto simp: updateNeuron_other)

lemma updateRange_static: "same_static s (updateRange g start end s)"
  unfolding updateRange_def by (rule fold_updateNeuron_static)

lemma updateRange_view:
  assumes "start \<le> n" "n < end"
  shows "view (updateRange g start end s) n = view (updateNeuron g n (updateRange g start n s)) n"
proof -
  have "[start..<end] = [start..<n] @ n # [Suc n..<end]"
    using assms by (metis le_add_diff_inverse less_imp_le_nat upt_add_eq_append upt_conv_Cons)
  then show ?thesis
    by (simp add: updateRange_def fold_updateNeuron_other)
qed

lemma input_current_cong:
  "same_static s s1 \<Longrightarrow> view s1 n = view s n \<Longrightarrow> input_current g s1 n = input_current g s n"
  by (simp add: input_current_def same_static_def view_def Let_def)

lemma integrated_cong:
  "same_static s s1 \<Longrightarrow> view s1 n = view s n \<Longrightarrow> integrated g s1 n = integrated g s n"
  by (simp add: integrated_def input_current_cong) (simp add: same_static_def view_def)

lemma updateNeuron_view:
  assumes "m_valid s ! n" "n < length (m_v s)" "n < length (m_u s)" "n < length (m_fired s)"
    "n < length (m_recentFiring s)" "n < length (m_current s)" "n < length (m_rng s)"
  shows "view (updateNeuron g n s) n =
     (let (v, u, fired) = integrated g s n;
          fired = fired OR m_fstim s ! n
      in (if fired \<noteq> 0 then m_c s ! n else v,
          if fired \<noteq> 0 then fadd u (m_d s ! n) else u,
          fired,
          push_bit 1 (m_recentFiring s ! n) OR ucast fired,
          0,
          if \<not> fp_eq (m_sigma s ! n) (Finite 0) then snd (g (m_rng s ! n)) else m_rng s ! n))"
  using assms
  by (simp add: updateNeuron_def view_def integrated_def Let_def split_beta)

lemma updateRange_neuron:
  assumes wf: "wf_Simulation s" and rng: "start \<le> n" "n < end" "end \<le> m_neuronCount s"
    and valid: "m_valid s ! n"
  shows "view (updateRange g start end s) n =
     (let (v, u, fired) = integrated g s n;
          fired = fired OR m_fstim s ! n
      in (if fired \<noteq> 0 then m_c s ! n else v,
          if fired \<noteq> 0 then fadd u (m_d s ! n) else u,
          fired,
          push_bit 1 (m_recentFiring s ! n) OR ucast fired,
          0,
          if \<not> fp_eq (m_sigma s ! n) (Finite 0) then snd (g (m_rng s ! n)) else m_rng s ! n))"
proof -
  let ?s1 = "updateRange g start n s"
  have st: "same_static s ?s1"
    unfolding updateRange_def by (rule fold_updateNeuron_static)
  have vw: "view ?s1 n = view s n"
    unfolding updateRange_def by (rule fold_updateNeuron_other) simp
  have n: "n < m_neuronCount s" using rng by simp
  have len: "n < length (m_v ?s1)" "n < length (m_u ?s1)" "n < length (m_fired ?s1)"
    "n < length (m_recentFiring ?s1)" "n < length (m_current ?s1)" "n < length (m_rng ?s1)"
    using st wf n by (simp_all add: same_static_def wf_Simulation_def)
  have v1: "m_valid ?s1 ! n" using st valid by (simp add: same_static_def)
  have "view (updateRange g start end s) n = view (updateNeuron g n ?s1) n"
    using rng by (simp add: updateRange_view)
  also note updateNeuron_view [OF v1 len, of g]
  finally show ?thesis
    using st vw by (simp add: integrated_cong [OF st vw] same_static_def view_def Let_def split_beta)
qed

lemma wf_same_static:
  "wf_Simulation s \<Longrightarrow> same_static s s' \<Longrightarrow> wf_Simulation s'"
  by (simp add: wf_Simulation_def same_static_def)

text \<open>
  Evaluation of the arithmetic on given numbers. In \<open>example_rounding\<close> the rounding decides
  the firing: the fourth sub-step gives the \<open>float\<close> 15728643 / 2^19, about 30.0000057, and
  the neuron fires, where the same four sub-steps on real numbers, without rounding, end
  below 30.
\<close>

lemmas fp_eval = to_double_def to_float_def round_to_def pow2_def ilog2.simps round_even_def
  Let_def fp_sub_def

lemma example_rounding_fields:
  "m_neuronCount example_rounding = 1" "m_valid example_rounding ! 0"
  "m_a example_rounding ! 0 = Finite 0" "m_b example_rounding ! 0 = Finite 0"
  "m_c example_rounding ! 0 = Finite (- 65)" "m_d example_rounding ! 0 = Finite 8"
  "m_v example_rounding ! 0 = Finite (- 48)" "m_u example_rounding ! 0 = Finite 0"
  "m_fstim example_rounding ! 0 = 0"
  by (simp_all add: example_rounding_def)

lemma example_rounding_current:
  "input_current g example_rounding 0 = Finite (11391019 / 262144)"
  by (simp add: input_current_def example_rounding_def empty_ConnectivityMatrix_def
      fx_toFloat_def fp_eval)

lemma example_rounding_substeps:
  "euler_step (Finite 0) (Finite 0) (Finite (11391019 / 262144)) (Finite (- 48), Finite 0)
     = (Finite (- (10248959 / 262144)), Finite 0)"
  "euler_step (Finite 0) (Finite 0) (Finite (11391019 / 262144))
       (Finite (- (10248959 / 262144)), Finite 0)
     = (Finite (- (14060721 / 524288)), Finite 0)"
  "euler_step (Finite 0) (Finite 0) (Finite (11391019 / 262144))
       (Finite (- (14060721 / 524288)), Finite 0)
     = (Finite (- (7640261 / 1048576)), Finite 0)"
  "euler_step (Finite 0) (Finite 0) (Finite (11391019 / 262144))
       (Finite (- (7640261 / 1048576)), Finite 0)
     = (Finite (15728643 / 524288), Finite 0)"
  by (simp_all add: euler_step_def fp_eval)

lemma example_rounding_integrated:
  "integrated g example_rounding 0 = (Finite (15728643 / 524288), Finite 0, 1)"
  by (simp add: integrated_def integrate_unrolled example_rounding_fields
      example_rounding_current example_rounding_substeps Let_def)

lemma example_rounding_exact:
  "(let f = (\<lambda>v::real. v + 0.25 * ((0.04 * v + 5) * v + 140 - 0 + 11391019 / 262144))
    in f (f (f (f (- 48))))) < 30"
  by (simp add: Let_def)

text \<open>
  C1. For a valid neuron \<open>n\<close> in the range, \<open>updateRange\<close> starts from a cleared firing
  flag and runs four sub-steps, each \<open>v := v + 0.25 * ((0.04 * v + 5) * v + 140 - u + I)\<close>
  followed by \<open>u := u + 0.25 * (a * (b * v - u))\<close> with the new \<open>v\<close> and the same input
  current \<open>I\<close>, every operation rounded as the types of the code prescribe; the first
  sub-step after which \<open>v \<ge> 30\<close> sets the flag and is the last one executed. The flag is
  then or-ed with the stimulus, and a neuron whose flag is set is reset.
\<close>

theorem updateRange_substeps:
  assumes "wf_Simulation s" and "start \<le> n" and "n < end" and "end \<le> m_neuronCount s"
    and "m_valid s ! n"
  shows "let I = input_current gaussian s n; a = m_a s ! n; b = m_b s ! n;
             f = (\<lambda>(v, u). let v' = float_of
                               (dadd v
                                 (dmul (Finite 0.25)
                                   (dadd
                                     (dsub
                                       (dadd (dmul (dadd (dmul (to_double 0.04) v) (Finite 5)) v)
                                          (Finite 140)) u)
                                     I)))
                             in (v', float_of (dadd u (dmul (Finite 0.25) (fmul a (fsub (fmul b v') u))))));
             p1 = f (m_v s ! n, m_u s ! n); p2 = f p1; p3 = f p2; p4 = f p3;
             (v, u, fired) =
               (if fp_ge (fst p1) (Finite 30) then (fst p1, snd p1, 1)
                else if fp_ge (fst p2) (Finite 30) then (fst p2, snd p2, 1)
                else if fp_ge (fst p3) (Finite 30) then (fst p3, snd p3, 1)
                else (fst p4, snd p4, if fp_ge (fst p4) (Finite 30) then 1 else 0));
             s' = updateRange gaussian start end s
         in m_fired s' ! n = fired OR m_fstim s ! n
            \<and> m_v s' ! n = (if m_fired s' ! n \<noteq> 0 then m_c s ! n else v)
            \<and> m_u s' ! n = (if m_fired s' ! n \<noteq> 0 then fadd u (m_d s ! n) else u)"
proof -
  from updateRange_neuron [OF assms, of gaussian]
  have "m_fired (updateRange gaussian start end s) ! n
        = snd (snd (integrated gaussian s n)) OR m_fstim s ! n"
    and "m_v (updateRange gaussian start end s) ! n
        = (if snd (snd (integrated gaussian s n)) OR m_fstim s ! n \<noteq> 0 then m_c s ! n
           else fst (integrated gaussian s n))"
    and "m_u (updateRange gaussian start end s) ! n
        = (if snd (snd (integrated gaussian s n)) OR m_fstim s ! n \<noteq> 0
           then fadd (fst (snd (integrated gaussian s n))) (m_d s ! n)
           else fst (snd (integrated gaussian s n)))"
    by (simp_all add: view_def Let_def split_beta)
  then have "let I = input_current gaussian s n; a = m_a s ! n; b = m_b s ! n;
             f = euler_step a b I;
             p1 = f (m_v s ! n, m_u s ! n); p2 = f p1; p3 = f p2; p4 = f p3;
             (v, u, fired) =
               (if fp_ge (fst p1) (Finite 30) then (fst p1, snd p1, 1)
                else if fp_ge (fst p2) (Finite 30) then (fst p2, snd p2, 1)
                else if fp_ge (fst p3) (Finite 30) then (fst p3, snd p3, 1)
                else (fst p4, snd p4, if fp_ge (fst p4) (Finite 30) then 1 else 0));
             s' = updateRange gaussian start end s
         in m_fired s' ! n = fired OR m_fstim s ! n
            \<and> m_v s' ! n = (if m_fired s' ! n \<noteq> 0 then m_c s ! n else v)
            \<and> m_u s' ! n = (if m_fired s' ! n \<noteq> 0 then fadd u (m_d s ! n) else u)"
    unfolding integrated_def integrate_unrolled
    by (simp add: Let_def split_beta)
  then show ?thesis
    unfolding euler_step_def .
qed

theorem updateRange_substeps_witness:
  "wf_Simulation example_rounding \<and> (0::nat) \<le> 0 \<and> (0::nat) < 1
   \<and> 1 \<le> m_neuronCount example_rounding \<and> m_valid example_rounding ! 0
   \<and> integrated (\<lambda>r. (Finite 0, r)) example_rounding 0
       = (Finite (15728643 / 524288), Finite 0, 1)
   \<and> m_fired (updateRange (\<lambda>r. (Finite 0, r)) 0 1 example_rounding) ! 0 = 1
   \<and> m_v (updateRange (\<lambda>r. (Finite 0, r)) 0 1 example_rounding) ! 0 = Finite (- 65)
   \<and> m_u (updateRange (\<lambda>r. (Finite 0, r)) 0 1 example_rounding) ! 0 = Finite 8"
proof -
  have wf: "wf_Simulation example_rounding"
    by (simp add: wf_Simulation_def example_rounding_def)
  from updateRange_substeps [of example_rounding 0 0 1 "\<lambda>r. (Finite 0, r)",
      unfolded euler_step_def [symmetric]]
  show ?thesis
    by (simp add: wf example_rounding_fields example_rounding_current
        example_rounding_substeps example_rounding_integrated Let_def fp_eval)
qed

subsection \<open>Delivery and stimulus leave the rest of the state alone\<close>

lemma only_current_refl: "only_current s s"
  by (simp add: only_current_def)

lemma only_current_trans: "only_current s s' \<Longrightarrow> only_current s' s'' \<Longrightarrow> only_current s s''"
  unfolding only_current_def
  by (metis (no_types, lifting) Simulation.surjective Simulation.update_convs(13))

lemma only_current_fields:
  assumes "only_current s s'"
  shows "m_neuronCount s' = m_neuronCount s" "m_a s' = m_a s" "m_b s' = m_b s" "m_c s' = m_c s"
    "m_d s' = m_d s" "m_u s' = m_u s" "m_v s' = m_v s" "m_sigma s' = m_sigma s"
    "m_valid s' = m_valid s" "m_fired s' = m_fired s" "m_recentFiring s' = m_recentFiring s"
    "m_cm s' = m_cm s" "m_fstim s' = m_fstim s" "m_rng s' = m_rng s"
    "m_lastFlush s' = m_lastFlush s" "m_stdp_enabled s' = m_stdp_enabled s"
    "m_timer s' = m_timer s" "m_firedCycle s' = m_firedCycle s"
    "m_firedNeuron s' = m_firedNeuron s" "length (m_current s') = length (m_current s)"
  using assms by (cases s; cases s'; simp add: only_current_def)+

lemma wf_only_current:
  "wf_Simulation s \<Longrightarrow> only_current s s' \<Longrightarrow> wf_Simulation s'"
  unfolding only_current_def wf_Simulation_def
  by (metis (no_types, lifting) Simulation.select_convs Simulation.surjective Simulation.update_convs(13))

lemma deliverTerminals_only_current:
  "deliverTerminals row s = Done s' \<Longrightarrow> only_current s s'"
proof (induction row arbitrary: s)
  case Nil
  then show ?case by (simp add: only_current_refl)
next
  case (Cons t row)
  from Cons.prems obtain acc where
    r: "deliverTerminals row (s\<lparr>m_current := (m_current s)[target t := acc]\<rparr>) = Done s'"
    by (auto split: if_splits option.splits)
  let ?s1 = "s\<lparr>m_current := (m_current s)[target t := acc]\<rparr>"
  from r have "only_current ?s1 s'" by (rule Cons.IH)
  moreover have "only_current s ?s1"
    by (simp add: only_current_def)
  ultimately show ?case by (blast intro: only_current_trans)
qed

lemma deliverSpikesOne_only_current:
  "deliverSpikesOne source delay s = Done s' \<Longrightarrow> only_current s s'"
  by (auto simp: deliverSpikesOne_def deliverTerminals_only_current split: if_splits)

lemma deliverDelays_only_current:
  "deliverDelays source f delay s = Done s' \<Longrightarrow> only_current s s'"
proof (induction source f delay s rule: deliverDelays.induct)
  case (1 source f delay s)
  show ?case
  proof (cases "f = 0")
    case True
    with "1.prems" show ?thesis
      by (simp add: deliverDelays.simps [of source 0 delay s] only_current_refl)
  next
    case False
    let ?shift = "1 + ctz64 f"
    from False "1.prems" have lt: "?shift < 64"
      by (simp add: deliverDelays.simps [of source f delay s] Let_def split: if_splits)
    from False "1.prems" lt obtain s1 where
      s1: "deliverSpikesOne source (delay + ?shift) s = Done s1" and
      r: "deliverDelays source (drop_bit ?shift f) (delay + ?shift) s1 = Done s'"
      by (simp add: deliverDelays.simps [of source f delay s] Let_def split: outcome.splits)
    have "only_current s1 s'"
      using "1.IH" [OF False refl refl lt s1 r] .
    with deliverSpikesOne_only_current [OF s1] show ?thesis
      by (blast intro: only_current_trans)
  qed
qed

lemma deliverSources_only_current:
  "deliverSources validSpikes sources s = Done s' \<Longrightarrow> only_current s s'"
proof (induction sources arbitrary: s)
  case Nil
  then show ?case by (simp add: only_current_refl)
next
  case (Cons source rest)
  then obtain s1 where
    s1: "deliverDelays source (m_recentFiring s ! source AND validSpikes) 0 s = Done s1" and
    r: "deliverSources validSpikes rest s1 = Done s'"
    by (cases "deliverDelays source (m_recentFiring s ! source AND validSpikes) 0 s") auto
  from deliverDelays_only_current [OF s1] Cons.IH [OF r] show ?case
    by (blast intro: only_current_trans)
qed

lemma deliverSpikes_only_current: "deliverSpikes s = Done s' \<Longrightarrow> only_current s s'"
  by (auto simp: deliverSpikes_def deliverSources_only_current split: if_splits)

lemma deliverSources_quiet:
  "\<forall>source \<in> set sources. m_recentFiring s ! source AND validSpikes = 0 \<Longrightarrow>
   deliverSources validSpikes sources s = Done s"
  by (induction sources) (simp_all add: deliverDelays.simps [of _ 0])

lemma deliverSpikes_quiet:
  assumes "m_maxDelay (m_cm s) < 64"
    and "\<forall>source < m_neuronCount s. m_recentFiring s ! source = 0"
  shows "deliverSpikes s = Done s"
  using assms by (simp add: deliverSpikes_def deliverSources_quiet)

lemma only_fstim_fields:
  assumes "only_fstim s s'"
  shows "m_neuronCount s' = m_neuronCount s" "m_a s' = m_a s" "m_b s' = m_b s" "m_c s' = m_c s"
    "m_d s' = m_d s" "m_u s' = m_u s" "m_v s' = m_v s" "m_sigma s' = m_sigma s"
    "m_valid s' = m_valid s" "m_fired s' = m_fired s" "m_recentFiring s' = m_recentFiring s"
    "m_cm s' = m_cm s" "m_current s' = m_current s" "m_rng s' = m_rng s"
    "m_lastFlush s' = m_lastFlush s" "m_stdp_enabled s' = m_stdp_enabled s"
    "m_timer s' = m_timer s" "m_firedCycle s' = m_firedCycle s"
    "m_firedNeuron s' = m_firedNeuron s" "length (m_fstim s') = length (m_fstim s)"
  using assms by (cases s; cases s'; simp add: only_fstim_def)+

lemma setFiringStimulus_only_fstim:
  "setFiringStimulus localIdx fstim s = Done s' \<Longrightarrow> only_fstim s s'"
proof (induction fstim arbitrary: s)
  case Nil
  then show ?case by (simp add: only_fstim_def)
next
  case (Cons i fstim)
  let ?s1 = "s\<lparr>m_fstim := (m_fstim s)[localIdx i := 1]\<rparr>"
  from Cons.prems have r: "setFiringStimulus localIdx fstim ?s1 = Done s'"
    by (simp split: if_splits)
  have a: "only_fstim ?s1 s'" using Cons.IH [OF r] .
  show ?case
    unfolding only_fstim_def
  proof (intro conjI allI impI)
    from a show "s' = s\<lparr>m_fstim := m_fstim s'\<rparr>"
      unfolding only_fstim_def
      by (metis (no_types, lifting) Simulation.surjective Simulation.update_convs(14))
    from a show "length (m_fstim s') = length (m_fstim s)"
      by (simp add: only_fstim_def)
    fix j assume "j < length (m_fstim s)"
    with a show "m_fstim s' ! j = m_fstim s ! j \<or> m_fstim s' ! j = 1"
      unfolding only_fstim_def
      by (cases "j = localIdx i") (auto simp: nth_list_update)
  qed
qed

lemma setFiringStimulus_sets:
  "setFiringStimulus localIdx fstim s = Done s' \<Longrightarrow> i \<in> set fstim \<Longrightarrow>
   localIdx i < length (m_fstim s) \<and> m_fstim s' ! localIdx i = 1"
proof (induction fstim arbitrary: s)
  case Nil
  then show ?case by simp
next
  case (Cons j fstim)
  let ?s1 = "s\<lparr>m_fstim := (m_fstim s)[localIdx j := 1]\<rparr>"
  from Cons.prems have lt: "localIdx j < length (m_fstim s)"
    and r: "setFiringStimulus localIdx fstim ?s1 = Done s'"
    by (simp_all split: if_splits)
  show ?case
  proof (cases "i \<in> set fstim")
    case True
    from Cons.IH [OF r True] show ?thesis by simp
  next
    case False
    with Cons.prems have ij: "i = j" by simp
    from setFiringStimulus_only_fstim [OF r] lt
    have "m_fstim s' ! localIdx j = 1"
      by (auto simp: only_fstim_def)
    with ij lt show ?thesis by simp
  qed
qed

subsection \<open>One cycle\<close>

lemma cycle_DoneE:
  assumes "cycle g l gi fstim s = Done s'"
  obtains s1 s2 where "setFiringStimulus l fstim s = Done s1" "deliverSpikes s1 = Done s2"
    "\<not> m_stdp_enabled s2"
    "s' = (setFiring gi (updateRange g 0 (m_neuronCount s2) s2))
            \<lparr>m_timer := m_timer s2 + 1, m_fstim := replicate (length (m_fstim s2)) 0\<rparr>"
proof -
  from assms obtain s1 where s1: "setFiringStimulus l fstim s = Done s1"
    and st: "step g gi s1 = Done s'"
    by (cases "setFiringStimulus l fstim s") (auto simp: cycle_def)
  from st obtain s2 where s2: "deliverSpikes s1 = Done s2"
    and r: "bind_outcome (update g s2) (\<lambda>s.
       let s = setFiring gi s; s = s\<lparr>m_timer := m_timer s + 1\<rparr>
       in Done (s\<lparr>m_fstim := replicate (length (m_fstim s)) 0\<rparr>)) = Done s'"
    by (cases "deliverSpikes s1") (auto simp: step_def)
  let ?s3 = "updateRange g 0 (m_neuronCount s2) s2"
  have ss: "same_static s2 ?s3" by (rule updateRange_static)
  from r have en: "\<not> m_stdp_enabled ?s3"
    by (auto simp: update_def Let_def split: if_splits)
  with ss have "\<not> m_stdp_enabled s2" by (simp add: same_static_def)
  moreover from r en ss have "s' = (setFiring gi ?s3)
      \<lparr>m_timer := m_timer s2 + 1, m_fstim := replicate (length (m_fstim s2)) 0\<rparr>"
    by (auto simp: update_def Let_def setFiring_def same_static_def)
  ultimately show ?thesis using s1 s2 that by blast
qed

lemma cycle_neuron:
  assumes c: "cycle g l gi fstim s = Done s'"
    and s1: "setFiringStimulus l fstim s = Done s1" and s2: "deliverSpikes s1 = Done s2"
    and wf: "wf_Simulation s" and n: "n < m_neuronCount s" and valid: "m_valid s ! n"
  shows "view s' n =
     (let (v, u, fired) = integrated g s2 n;
          fired = fired OR m_fstim s1 ! n
      in (if fired \<noteq> 0 then m_c s ! n else v,
          if fired \<noteq> 0 then fadd u (m_d s ! n) else u,
          fired,
          push_bit 1 (m_recentFiring s ! n) OR ucast fired,
          0,
          if \<not> fp_eq (m_sigma s ! n) (Finite 0) then snd (g (m_rng s ! n)) else m_rng s ! n))"
proof -
  note f1 = only_fstim_fields [OF setFiringStimulus_only_fstim [OF s1]]
  note f2 = only_current_fields [OF deliverSpikes_only_current [OF s2]]
  from c s1 s2 have s': "s' = (setFiring gi (updateRange g 0 (m_neuronCount s2) s2))
      \<lparr>m_timer := m_timer s2 + 1, m_fstim := replicate (length (m_fstim s2)) 0\<rparr>"
    by (auto elim!: cycle_DoneE)
  have wf2: "wf_Simulation s2"
    using wf f1 f2 by (simp add: wf_Simulation_def)
  have n2: "n < m_neuronCount s2" using n f1 f2 by simp
  have v2: "m_valid s2 ! n" using valid f1 f2 by simp
  have "view s' n = view (updateRange g 0 (m_neuronCount s2) s2) n"
    by (simp add: s' view_def setFiring_def Let_def)
  also note updateRange_neuron [OF wf2 _ n2 _ v2, of 0 g]
  finally show ?thesis using f1 f2 by (simp add: Let_def split_beta)
qed

lemma cycle_static:
  assumes c: "cycle g l gi fstim s = Done s'" and wf: "wf_Simulation s"
  shows "wf_Simulation s'" "m_neuronCount s' = m_neuronCount s" "m_valid s' = m_valid s"
    "m_fstim s' = replicate (m_neuronCount s) 0"
    "m_firedNeuron s' = m_firedNeuron s @
       map gi (filter (\<lambda>n. m_fired s' ! n \<noteq> 0) [0..<m_neuronCount s])"
proof -
  from c obtain s1 s2 where s1: "setFiringStimulus l fstim s = Done s1"
    and s2: "deliverSpikes s1 = Done s2"
    and s': "s' = (setFiring gi (updateRange g 0 (m_neuronCount s2) s2))
      \<lparr>m_timer := m_timer s2 + 1, m_fstim := replicate (length (m_fstim s2)) 0\<rparr>"
    by (auto elim!: cycle_DoneE)
  note f1 = only_fstim_fields [OF setFiringStimulus_only_fstim [OF s1]]
  note f2 = only_current_fields [OF deliverSpikes_only_current [OF s2]]
  let ?s3 = "updateRange g 0 (m_neuronCount s2) s2"
  have ss: "same_static s2 ?s3" by (rule updateRange_static)
  have wf2: "wf_Simulation s2"
    using wf f1 f2 by (simp add: wf_Simulation_def)
  then have wf3: "wf_Simulation ?s3" using ss by (rule wf_same_static)
  show "wf_Simulation s'"
    using wf3 wf2 ss by (simp add: s' wf_Simulation_def setFiring_def Let_def same_static_def)
  show "m_neuronCount s' = m_neuronCount s"
    using ss f1 f2 by (simp add: s' setFiring_def Let_def same_static_def)
  show "m_valid s' = m_valid s"
    using ss f1 f2 by (simp add: s' setFiring_def Let_def same_static_def)
  show "m_fstim s' = replicate (m_neuronCount s) 0"
    using wf f1 f2 by (simp add: s' wf_Simulation_def)
  show "m_firedNeuron s' = m_firedNeuron s @
       map gi (filter (\<lambda>n. m_fired s' ! n \<noteq> 0) [0..<m_neuronCount s])"
    using ss f1 f2 by (simp add: s' setFiring_def Let_def same_static_def)
qed

lemma cycle_forced:
  assumes s1: "setFiringStimulus localIdx fstim s = Done s1"
    and s2: "deliverSpikes s1 = Done s2"
    and c: "cycle gaussian localIdx globalIdx fstim s = Done s'"
    and wf: "wf_Simulation s" and i: "i \<in> set fstim" and valid: "m_valid s ! localIdx i"
  shows "m_fired s' ! localIdx i \<noteq> 0 \<and> bit (m_recentFiring s' ! localIdx i) 0
     \<and> globalIdx (localIdx i) \<in> set (drop (length (m_firedNeuron s)) (m_firedNeuron s'))
     \<and> m_v s' ! localIdx i = m_c s ! localIdx i
     \<and> m_u s' ! localIdx i
         = fadd (fst (snd (integrated gaussian s2 (localIdx i)))) (m_d s ! localIdx i)"
proof -
  let ?n = "localIdx i"
  from setFiringStimulus_sets [OF s1 i] wf
  have n: "?n < m_neuronCount s" and st: "m_fstim s1 ! ?n = 1"
    by (simp_all add: wf_Simulation_def)
  let ?fired = "snd (snd (integrated gaussian s2 ?n)) OR 1"
  have b0: "bit ?fired 0" by (simp add: bit_or_iff)
  have ne: "?fired \<noteq> 0"
  proof
    assume "?fired = 0"
    with b0 show False by simp
  qed
  from cycle_neuron [OF c s1 s2 wf n valid] st
  have f: "m_fired s' ! ?n = ?fired"
    and h: "m_recentFiring s' ! ?n = push_bit 1 (m_recentFiring s ! ?n) OR ucast ?fired"
    and v: "m_v s' ! ?n = (if ?fired \<noteq> 0 then m_c s ! ?n else fst (integrated gaussian s2 ?n))"
    and u: "m_u s' ! ?n
        = (if ?fired \<noteq> 0 then fadd (fst (snd (integrated gaussian s2 ?n))) (m_d s ! ?n)
           else fst (snd (integrated gaussian s2 ?n)))"
    by (simp_all add: view_def Let_def split_beta)
  have hb: "bit (m_recentFiring s' ! ?n) 0"
    unfolding h using b0 by (simp add: bit_or_iff bit_ucast_iff)
  from cycle_static(5) [OF c wf] n f ne
  have "globalIdx ?n \<in> set (drop (length (m_firedNeuron s)) (m_firedNeuron s'))"
    by simp
  with f ne hb v u show ?thesis by simp
qed

subsection \<open>The example\<close>

lemma example_wf: "wf_Simulation example_Simulation"
  by (simp add: wf_Simulation_def example_Simulation_def)

lemma example_ready: "ready example_Simulation"
  by (simp add: ready_def wf_Simulation_def example_Simulation_def numeral_2_eq_2)

lemma example_setFiringStimulus:
  "setFiringStimulus id [0] example_Simulation = Done example_stimulated"
  by (simp add: example_Simulation_def example_stimulated_def)

lemma example_deliverSpikes: "deliverSpikes example_stimulated = Done example_stimulated"
  by (rule deliverSpikes_quiet)
    (simp_all add: example_stimulated_def example_Simulation_def example_ConnectivityMatrix_def
      less_Suc_eq numeral_2_eq_2)

lemma example_cycle:
  "cycle (\<lambda>r. (Finite 0, r)) id id [0] example_Simulation = Done example_next"
proof -
  let ?g = "\<lambda>r::unit. (Finite 0, r)"
  let ?s3 = "updateRange ?g 0 2 example_stimulated"
  have ss: "same_static example_stimulated ?s3" by (rule updateRange_static)
  have n: "m_neuronCount example_stimulated = 2"
    by (simp add: example_stimulated_def example_Simulation_def)
  have e: "\<not> m_stdp_enabled ?s3"
    using ss by (simp add: same_static_def example_stimulated_def example_Simulation_def)
  have t: "m_timer ?s3 = 0"
    using ss by (simp add: same_static_def example_stimulated_def example_Simulation_def)
  have l: "replicate (length (m_fstim ?s3)) 0 = [0, 0]"
    using ss
    by (simp add: same_static_def example_stimulated_def example_Simulation_def numeral_2_eq_2)
  have u: "update ?g example_stimulated = Done ?s3"
    using e by (simp add: update_def Let_def n)
  have "cycle ?g id id [0] example_Simulation = step ?g id example_stimulated"
    by (simp only: cycle_def example_setFiringStimulus bind_outcome.simps)
  also have "\<dots> = Done example_next"
    by (simp only: step_def example_deliverSpikes bind_outcome.simps u)
      (simp add: Let_def setFiring_def example_next_def t l)
  finally show ?thesis .
qed

lemma example_run:
  "run (\<lambda>r. (Finite 0, r)) id id [[0]] example_Simulation = Done example_next"
  by (simp add: example_cycle)

lemma example_substeps:
  "euler_step (Finite (5368709 / 268435456)) (Finite (13421773 / 67108864)) (Finite 0)
       (Finite (- 65), Finite (- 13))
     = (Finite (- (263 / 4)), Finite (- (6816137 / 524288)))"
  "euler_step (Finite (5368709 / 268435456)) (Finite (13421773 / 67108864)) (Finite 0)
       (Finite (- (263 / 4)), Finite (- (6816137 / 524288)))
     = (Finite (- (8710611 / 131072)), Finite (- (6816899 / 524288)))"
  "euler_step (Finite (5368709 / 268435456)) (Finite (13421773 / 67108864)) (Finite 0)
       (Finite (- (8710611 / 131072)), Finite (- (6816899 / 524288)))
     = (Finite (- (8796515 / 131072)), Finite (- (13636001 / 1048576)))"
  "euler_step (Finite (5368709 / 268435456)) (Finite (13421773 / 67108864)) (Finite 0)
       (Finite (- (8796515 / 131072)), Finite (- (13636001 / 1048576)))
     = (Finite (- (8874989 / 131072)), Finite (- (13638821 / 1048576)))"
  by (simp_all add: euler_step_def fp_eval)

lemma example_current:
  "input_current (\<lambda>r. (Finite 0, r)) example_stimulated 0 = Finite 0"
  by (simp add: input_current_def example_stimulated_def example_Simulation_def
      example_ConnectivityMatrix_def fx_toFloat_def fp_eval)

lemma example_integrated:
  "integrated (\<lambda>r. (Finite 0, r)) example_stimulated 0
     = (Finite (- (8874989 / 131072)), Finite (- (13638821 / 1048576)), 0)"
proof -
  have f: "m_a example_stimulated ! 0 = Finite (5368709 / 268435456)"
    "m_b example_stimulated ! 0 = Finite (13421773 / 67108864)"
    "m_v example_stimulated ! 0 = Finite (- 65)" "m_u example_stimulated ! 0 = Finite (- 13)"
    by (simp_all add: example_stimulated_def example_Simulation_def fp_eval)
  show ?thesis
    by (simp add: integrated_def integrate_unrolled f example_current example_substeps Let_def)
qed

lemma example_fired: "m_fired example_next ! 0 \<noteq> 0"
proof -
  have v: "m_valid example_Simulation ! id 0" and i: "(0::nat) \<in> set [0]"
    by (simp_all add: example_Simulation_def)
  from cycle_forced [OF example_setFiringStimulus example_deliverSpikes example_cycle
      example_wf i v]
  show ?thesis by simp
qed

text \<open>
  C8. A neuron passed in the firing stimulus of a cycle that completes, valid and known to
  the mapper, has its firing flag set after the cycle and bit 0 of its recent-firing word
  set, whatever its potential; its global index is among the entries the cycle appends to
  the firing list; its potential is \<open>c\<close> and its recovery variable the integrated one plus
  \<open>d\<close>.
\<close>

theorem forced_firing:
  assumes "setFiringStimulus localIdx fstim s = Done s1"
    and "deliverSpikes s1 = Done s2"
    and "cycle gaussian localIdx globalIdx fstim s = Done s'"
    and "wf_Simulation s" and "i \<in> set fstim" and "m_valid s ! localIdx i"
  shows "m_fired s' ! localIdx i \<noteq> 0 \<and> bit (m_recentFiring s' ! localIdx i) 0
     \<and> globalIdx (localIdx i) \<in> set (drop (length (m_firedNeuron s)) (m_firedNeuron s'))
     \<and> m_v s' ! localIdx i = m_c s ! localIdx i
     \<and> m_u s' ! localIdx i
         = fadd (fst (snd (integrated gaussian s2 (localIdx i)))) (m_d s ! localIdx i)"
  using assms by (rule cycle_forced)

theorem forced_firing_witness:
  "setFiringStimulus id [0] example_Simulation = Done example_stimulated
   \<and> deliverSpikes example_stimulated = Done example_stimulated
   \<and> cycle (\<lambda>r. (Finite 0, r)) id id [0] example_Simulation = Done example_next
   \<and> wf_Simulation example_Simulation \<and> (0::nat) \<in> set [0] \<and> m_valid example_Simulation ! 0
   \<and> m_fired example_next ! 0 \<noteq> 0 \<and> bit (m_recentFiring example_next ! 0) 0
   \<and> 0 \<in> set (m_firedNeuron example_next)
   \<and> m_v example_next ! 0 = Finite (- 65)
   \<and> m_u example_next ! 0 = Finite (- (5250213 / 1048576))"
proof -
  have v: "m_valid example_Simulation ! id 0" and i: "(0::nat) \<in> set [0]"
    by (simp_all add: example_Simulation_def)
  have c: "m_c example_Simulation ! 0 = Finite (- 65)" "m_d example_Simulation ! 0 = Finite 8"
    "m_firedNeuron example_Simulation = []"
    by (simp_all add: example_Simulation_def)
  have d: "to_float (- (5250213 / 1048576)) = Finite (- (5250213 / 1048576))"
    by (simp add: fp_eval)
  from forced_firing [OF example_setFiringStimulus example_deliverSpikes example_cycle
      example_wf i v]
  show ?thesis
    using example_setFiringStimulus example_deliverSpikes example_cycle example_wf v
    by (simp add: example_integrated c d)
qed

subsection \<open>The firing history\<close>

lemma history_bit:
  fixes h :: "64 word" and fl :: "32 word"
  assumes "fl = 0 \<or> fl = 1"
  shows "bit (push_bit 1 h OR ucast fl) k \<longleftrightarrow> (if k = 0 then fl \<noteq> 0 else k < 64 \<and> bit h (k - 1))"
proof -
  have p: "bit (push_bit 1 h) k \<longleftrightarrow> 1 \<le> k \<and> k < 64 \<and> bit h (k - 1)"
    by (simp only: bit_push_bit_iff possible_bit_word) simp
  have u: "bit (ucast fl :: 64 word) k \<longleftrightarrow> k = 0 \<and> fl \<noteq> 0"
    using assms by (auto simp: bit_1_iff)
  have "bit (push_bit 1 h OR ucast fl) k \<longleftrightarrow> bit (push_bit 1 h) k \<or> bit (ucast fl :: 64 word) k"
    by (simp only: bit_or_iff)
  with p u show ?thesis by auto
qed

lemma cycle_history:
  assumes c: "cycle g l gi fstim s = Done s'" and wf: "wf_Simulation s"
    and n: "n < m_neuronCount s" and valid: "m_valid s ! n"
    and fz: "m_fstim s = replicate (m_neuronCount s) 0"
  shows "m_fired s' ! n = 0 \<or> m_fired s' ! n = 1"
    and "m_recentFiring s' ! n = push_bit 1 (m_recentFiring s ! n) OR ucast (m_fired s' ! n)"
proof -
  from c obtain s1 s2 where s1: "setFiringStimulus l fstim s = Done s1"
    and s2: "deliverSpikes s1 = Done s2"
    by (auto elim!: cycle_DoneE)
  have "only_fstim s s1" using s1 by (rule setFiringStimulus_only_fstim)
  with n wf fz have st: "m_fstim s1 ! n = 0 \<or> m_fstim s1 ! n = 1"
    by (auto simp: only_fstim_def wf_Simulation_def)
  have fi: "snd (snd (integrated g s2 n)) = 0 \<or> snd (snd (integrated g s2 n)) = 1"
    unfolding integrated_def by (rule integrate_fired)
  from cycle_neuron [OF c s1 s2 wf n valid]
  have f: "m_fired s' ! n = snd (snd (integrated g s2 n)) OR m_fstim s1 ! n"
    and h: "m_recentFiring s' ! n = push_bit 1 (m_recentFiring s ! n)
       OR ucast (snd (snd (integrated g s2 n)) OR m_fstim s1 ! n)"
    by (simp_all add: view_def Let_def split_beta)
  from st fi show "m_fired s' ! n = 0 \<or> m_fired s' ! n = 1"
    unfolding f by auto
  from h show "m_recentFiring s' ! n = push_bit 1 (m_recentFiring s ! n) OR ucast (m_fired s' ! n)"
    unfolding f .
qed

lemma run_append:
  "run g l gi (xs @ ys) s = bind_outcome (run g l gi xs s) (run g l gi ys)"
proof (induction xs arbitrary: s)
  case Nil
  show ?case by simp
next
  case (Cons x xs)
  show ?case
    by (cases "cycle g l gi x s") (simp_all add: Cons.IH)
qed

lemma run_snoc_DoneE:
  assumes "run g l gi (xs @ [x]) s = Done s'"
  obtains sm where "run g l gi xs s = Done sm" "cycle g l gi x sm = Done s'"
proof -
  from assms obtain sm where a: "run g l gi xs s = Done sm"
    and b: "run g l gi [x] sm = Done s'"
    by (cases "run g l gi xs s") (auto simp: run_append)
  from b have "cycle g l gi x sm = Done s'"
    by (cases "cycle g l gi x sm") auto
  with a that show ?thesis by blast
qed

lemma run_ready:
  assumes "run g l gi stims s = Done s'" "ready s"
  shows "ready s' \<and> m_neuronCount s' = m_neuronCount s \<and> m_valid s' = m_valid s"
  using assms
proof (induction stims arbitrary: s' rule: rev_induct)
  case Nil
  then show ?case by simp
next
  case (snoc x xs)
  from snoc.prems(1) obtain sm where a: "run g l gi xs s = Done sm"
    and b: "cycle g l gi x sm = Done s'"
    by (rule run_snoc_DoneE)
  from snoc.IH [OF a snoc.prems(2)]
  have r: "ready sm" and eq: "m_neuronCount sm = m_neuronCount s" "m_valid sm = m_valid s"
    by simp_all
  from r have wf: "wf_Simulation sm" by (simp add: ready_def)
  from cycle_static [OF b wf] eq show ?case by (simp add: ready_def)
qed

lemma firedAt_snoc:
  "c < length xs \<Longrightarrow> firedAt g l gi (xs @ [x]) s0 n c = firedAt g l gi xs s0 n c"
  by (simp add: firedAt_def)

lemma firedAt_last:
  "run g l gi (xs @ [x]) s0 = Done s \<Longrightarrow>
   firedAt g l gi (xs @ [x]) s0 n (length xs) \<longleftrightarrow> m_fired s ! n \<noteq> 0"
  by (simp add: firedAt_def)

lemma run_history:
  assumes "run g l gi stims s0 = Done s" and "ready s0"
    and "n < m_neuronCount s0" and "m_valid s0 ! n" and "m_recentFiring s0 ! n = 0"
  shows "bit (m_recentFiring s ! n) k \<longleftrightarrow>
     k < 64 \<and> k < length stims \<and> firedAt g l gi stims s0 n (length stims - 1 - k)"
  using assms(1)
proof (induction stims arbitrary: s k rule: rev_induct)
  case Nil
  with assms show ?case by simp
next
  case (snoc x xs)
  from snoc.prems obtain sm where a: "run g l gi xs s0 = Done sm"
    and b: "cycle g l gi x sm = Done s"
    by (rule run_snoc_DoneE)
  from run_ready [OF a assms(2)]
  have r: "ready sm" and eq: "m_neuronCount sm = m_neuronCount s0" "m_valid sm = m_valid s0"
    by simp_all
  from r have wf: "wf_Simulation sm" and fz: "m_fstim sm = replicate (m_neuronCount sm) 0"
    by (simp_all add: ready_def)
  have n: "n < m_neuronCount sm" and v: "m_valid sm ! n"
    using assms eq by simp_all
  note ch = cycle_history [OF b wf n v fz]
  have hb: "bit (m_recentFiring s ! n) k \<longleftrightarrow>
      (if k = 0 then m_fired s ! n \<noteq> 0 else k < 64 \<and> bit (m_recentFiring sm ! n) (k - 1))"
    unfolding ch(2) using ch(1) by (rule history_bit)
  show ?case
  proof (cases "k = 0")
    case True
    with hb firedAt_last [OF snoc.prems, of n] show ?thesis by simp
  next
    case False
    then obtain j where k: "k = Suc j" by (cases k) auto
    have "bit (m_recentFiring s ! n) k \<longleftrightarrow> k < 64 \<and> bit (m_recentFiring sm ! n) j"
      using hb k by simp
    also have "\<dots> \<longleftrightarrow> k < 64 \<and> j < length xs \<and> firedAt g l gi xs s0 n (length xs - 1 - j)"
      using snoc.IH [OF a, of j] k by auto
    also have "\<dots> \<longleftrightarrow> k < 64 \<and> k < length (xs @ [x])
        \<and> firedAt g l gi (xs @ [x]) s0 n (length (xs @ [x]) - 1 - k)"
      using k by (auto simp: firedAt_snoc)
    finally show ?thesis .
  qed
qed

lemma example_history: "bit (m_recentFiring example_next ! 0) k \<longleftrightarrow> k = 0"
proof -
  have "bit (m_recentFiring example_next ! 0) k \<longleftrightarrow>
      k < 64 \<and> k < length [[0::nat]]
      \<and> firedAt (\<lambda>r. (Finite 0, r)) id id [[0]] example_Simulation 0 (length [[0::nat]] - 1 - k)"
    by (rule run_history [OF example_run example_ready])
      (simp_all add: example_Simulation_def)
  also have "\<dots> \<longleftrightarrow> k = 0"
    using example_fired by (auto simp: firedAt_def example_cycle)
  finally show ?thesis .
qed

lemma example_history_word: "m_recentFiring example_next ! 0 = 1"
  by (rule bit_eqI) (simp add: example_history bit_1_iff)

text \<open>
  C3, amended. Each cycle shifts the recent-firing word of a valid neuron left by one and
  sets bit 0 iff the neuron fired in that cycle. Hence, after the cycles \<open>0, ..., t - 1\<close>
  of a run from a state with a zero history, that is at the start of cycle \<open>t\<close>, bit \<open>k\<close> of
  the word is set iff \<open>k < 64\<close>, \<open>k < t\<close> and the neuron fired at cycle \<open>t - 1 - k\<close>.
\<close>

theorem firing_history:
  assumes "run g l gi stims s0 = Done s" and "wf_Simulation s0"
    and "m_fstim s0 = replicate (m_neuronCount s0) 0"
    and "n < m_neuronCount s0" and "m_valid s0 ! n" and "m_recentFiring s0 ! n = 0"
  shows "(\<forall>k. bit (m_recentFiring s ! n) k \<longleftrightarrow>
            k < 64 \<and> k < length stims \<and> firedAt g l gi stims s0 n (length stims - 1 - k))
     \<and> (\<forall>fstim s'. cycle g l gi fstim s = Done s' \<longrightarrow>
            m_recentFiring s' ! n
              = push_bit 1 (m_recentFiring s ! n) OR (if m_fired s' ! n \<noteq> 0 then 1 else 0))"
proof (intro conjI allI impI)
  have r0: "ready s0" using assms by (simp add: ready_def)
  fix k
  show "bit (m_recentFiring s ! n) k \<longleftrightarrow>
      k < 64 \<and> k < length stims \<and> firedAt g l gi stims s0 n (length stims - 1 - k)"
    using assms(1) r0 assms(4-6) by (rule run_history)
next
  fix fstim s'
  assume c: "cycle g l gi fstim s = Done s'"
  have r0: "ready s0" using assms by (simp add: ready_def)
  from run_ready [OF assms(1) r0]
  have wf: "wf_Simulation s" and fz: "m_fstim s = replicate (m_neuronCount s) 0"
    and n: "n < m_neuronCount s" and v: "m_valid s ! n"
    using assms by (simp_all add: ready_def)
  from cycle_history [OF c wf n v fz]
  show "m_recentFiring s' ! n
      = push_bit 1 (m_recentFiring s ! n) OR (if m_fired s' ! n \<noteq> 0 then 1 else 0)"
    by auto
qed

theorem firing_history_witness:
  "run (\<lambda>r. (Finite 0, r)) id id [[0]] example_Simulation = Done example_next
   \<and> wf_Simulation example_Simulation
   \<and> m_fstim example_Simulation = replicate (m_neuronCount example_Simulation) 0
   \<and> 0 < m_neuronCount example_Simulation \<and> m_valid example_Simulation ! 0
   \<and> m_recentFiring example_Simulation ! 0 = 0
   \<and> bit (m_recentFiring example_next ! 0) 0
   \<and> firedAt (\<lambda>r. (Finite 0, r)) id id [[0]] example_Simulation 0 0
   \<and> \<not> bit (m_recentFiring example_next ! 0) 1"
proof -
  have h: "m_fstim example_Simulation = replicate (m_neuronCount example_Simulation) 0"
    "0 < m_neuronCount example_Simulation" "m_valid example_Simulation ! 0"
    "m_recentFiring example_Simulation ! 0 = 0"
    by (simp_all add: example_Simulation_def numeral_2_eq_2)
  from firing_history [OF example_run example_wf h]
  have "\<forall>k. bit (m_recentFiring example_next ! 0) k \<longleftrightarrow>
      k < 64 \<and> k < length [[0::nat]]
      \<and> firedAt (\<lambda>r. (Finite 0, r)) id id [[0]] example_Simulation 0 (length [[0::nat]] - 1 - k)"
    by (rule conjunct1)
  then have "bit (m_recentFiring example_next ! 0) 0
      \<longleftrightarrow> firedAt (\<lambda>r. (Finite 0, r)) id id [[0]] example_Simulation 0 0"
    and "\<not> bit (m_recentFiring example_next ! 0) 1"
    by simp_all
  moreover have "firedAt (\<lambda>r. (Finite 0, r)) id id [[0]] example_Simulation 0 0"
    using example_fired by (simp add: firedAt_def example_cycle)
  ultimately show ?thesis
    using example_run example_wf h by simp
qed

text \<open>
  The claim as stated puts the firing of cycle \<open>t - k\<close> at bit \<open>k\<close>. At the start of cycle
  1, neuron 0 of the example, forced at cycle 0, has the history word 1: it fired at cycle
  \<open>1 - 1\<close>, and bit 1 is not set.
\<close>

theorem firing_history_counterexample:
  "history_after (\<lambda>r. (Finite 0, r)) id id [[0]] example_Simulation 0 = Some 1
   \<and> firedAt (\<lambda>r. (Finite 0, r)) id id [[0]] example_Simulation 0 (1 - 1)
   \<and> \<not> bit (1 :: 64 word) 1"
  using example_fired example_history_word
  by (simp add: history_after_def firedAt_def example_cycle)

subsection \<open>Summing the currents\<close>

text \<open>
  Where the exact sum fits the signed 32-bit format, the addition of the code gives that
  sum, which is also the saturating sum.
\<close>

lemma fix_add_fits:
  assumes "- (2 ^ 31) \<le> sint a + sint b" and "sint a + sint b < 2 ^ 31"
  shows "fix_add a b = Some (saturating_add a b)" and "sint (saturating_add a b) = sint a + sint b"
proof -
  have "sint a + sint b \<le> 2 ^ 31 - 1"
    using assms by simp
  then have "max (- (2 ^ 31)) (min (2 ^ 31 - 1) (sint a + sint b)) = sint a + sint b"
    using assms by (simp only: min_absorb2 max_absorb2)
  then have "saturating_add a b = word_of_int (sint a + sint b)"
    by (simp only: saturating_add_def)
  also have "\<dots> = a + b"
    by simp
  finally have sat: "saturating_add a b = a + b" .
  show "fix_add a b = Some (saturating_add a b)"
    using assms by (simp add: fix_add_def sat)
  have "sint (a + b) = signed_take_bit 31 (sint a + sint b)"
    by (simp add: sint_word_ariths)
  also have "\<dots> = sint a + sint b"
    using assms by (simp add: signed_take_bit_int_eq_self)
  finally show "sint (saturating_add a b) = sint a + sint b"
    by (simp add: sat)
qed

lemma fix_add_example: "fix_add 7 5120 = Some 5127" "saturating_add 7 5120 = 5127"
  by (simp_all add: fix_add_def saturating_add_def)

text \<open>
  C4. \<open>deliverSpikesOne\<close> adds a weight to the accumulator of its target with the built-in
  \<open>+=\<close> of signed 32-bit integers; nothing clamps the sum. With the accumulator of neuron 1
  at the largest value, \<open>2^31 - 1\<close>, the delivery of the weight 5120 is an addition whose
  sum, 2147488767, the type cannot hold, which the language leaves undefined, where the
  saturating addition of the claim gives \<open>2^31 - 1\<close>. The same holds from cleared
  accumulators for a row of two terminals of weight \<open>2^30\<close> with one target.
\<close>

theorem deliverSpikesOne_overflow:
  "m_current example_saturated ! 1 = 0x7FFFFFFF
   \<and> m_rows (m_cm example_saturated) ! addressOf (m_cm example_saturated) 0 1
       = [\<lparr>weight = 5120, target = 1\<rparr>]
   \<and> sint (0x7FFFFFFF :: fix_t) + sint (5120 :: fix_t) = 2147488767
   \<and> fix_add 0x7FFFFFFF 5120 = None
   \<and> deliverSpikesOne 0 1 example_saturated = Undefined
   \<and> saturating_add 0x7FFFFFFF 5120 = 0x7FFFFFFF
   \<and> m_current example_Simulation = [0, 0]
   \<and> deliverTerminals
         [\<lparr>weight = 0x40000000, target = 1\<rparr>, \<lparr>weight = 0x40000000, target = 1\<rparr>]
         example_Simulation = Undefined
   \<and> saturating_add 0x40000000 0x40000000 = 0x7FFFFFFF"
  by (simp add: deliverSpikesOne_def addressOf_def example_saturated_def example_Simulation_def
      example_ConnectivityMatrix_def fix_add_def saturating_add_def)

subsection \<open>Which delays are delivered\<close>

text \<open>
  \<open>ctz64\<close> finds the lowest set bit of a non-zero word, so the loop of \<open>deliverSpikes\<close>
  visits the set bits of the masked word from the lowest upwards. While the largest delay
  is below 64, \<open>deliverSpikes\<close> is therefore delivery as the spec words it, and after a run
  of \<open>t\<close> cycles the delays delivered for a neuron are those \<open>d\<close> up to the largest delay
  with a firing of the neuron at cycle \<open>t - d\<close>.
\<close>

lemma ctz_upto_props:
  "\<exists>j < k. bit f j \<Longrightarrow>
   ctz_upto k f < k \<and> bit f (ctz_upto k f) \<and> (\<forall>i < ctz_upto k f. \<not> bit f i)"
proof (induction k arbitrary: f)
  case 0
  then show ?case by simp
next
  case (Suc k)
  show ?case
  proof (cases "bit f 0")
    case True
    then show ?thesis by simp
  next
    case False
    from Suc.prems obtain j where j: "j < Suc k" "bit f j" by blast
    have "j \<noteq> 0"
    proof
      assume "j = 0"
      with j False show False by simp
    qed
    then obtain j' where j': "j = Suc j'" by (cases j) auto
    with j have "\<exists>j < k. bit (drop_bit 1 f) j"
      by (auto simp: bit_drop_bit_eq intro!: exI [of _ j'])
    from Suc.IH [OF this]
    have a: "ctz_upto k (drop_bit 1 f) < k"
      and b: "bit f (Suc (ctz_upto k (drop_bit 1 f)))"
      and c: "\<forall>i < ctz_upto k (drop_bit 1 f). \<not> bit f (Suc i)"
      by (simp_all add: bit_drop_bit_eq)
    have "\<forall>i < Suc (ctz_upto k (drop_bit 1 f)). \<not> bit f i"
    proof (intro allI impI)
      fix i assume "i < Suc (ctz_upto k (drop_bit 1 f))"
      then show "\<not> bit f i"
        using False c by (cases i) auto
    qed
    with False a b show ?thesis by simp
  qed
qed

lemma ctz64_props:
  assumes "f \<noteq> 0"
  shows "ctz64 f < 64" "bit f (ctz64 f)" "\<forall>i < ctz64 f. \<not> bit f i"
proof -
  from assms obtain j where "bit f j"
    by (auto simp: bit_eq_iff)
  moreover from this have "j < 64"
    using bit_imp_le_length [of f j] by simp
  ultimately have "\<exists>j < 64. bit f j" by blast
  from ctz_upto_props [OF this]
  show "ctz64 f < 64" "bit f (ctz64 f)" "\<forall>i < ctz64 f. \<not> bit f i"
    by (simp_all add: ctz64_def)
qed

lemma filter_bit_split:
  assumes "c < M" "bit f c" "\<forall>i < c. \<not> bit f i"
  shows "filter (bit f) [0..<M] = c # filter (bit f) [Suc c..<M]"
proof -
  have "[0..<M] = [0..<c] @ c # [Suc c..<M]"
    using assms(1) by (metis le0 le_add_diff_inverse less_imp_le_nat upt_add_eq_append upt_conv_Cons)
  moreover have "filter (bit f) [0..<c] = []"
    using assms(3) by (simp add: filter_empty_conv)
  ultimately show ?thesis using assms(2) by simp
qed

lemma filter_bit_shift:
  fixes f :: "64 word"
  assumes "n \<le> M"
  shows "map (\<lambda>j. delay + n + 1 + j) (filter (bit (drop_bit n f)) [0..<M - n])
     = map (\<lambda>j. delay + 1 + j) (filter (bit f) [n..<M])"
proof -
  have "[n..<M] = map (\<lambda>j. j + n) [0..<M - n]"
    using assms by (simp add: map_add_upt)
  then have "filter (bit f) [n..<M] = map (\<lambda>j. j + n) (filter (bit f \<circ> (\<lambda>j. j + n)) [0..<M - n])"
    by (simp only: filter_map)
  moreover have "bit f \<circ> (\<lambda>j. j + n) = bit (drop_bit n f)"
    by (auto simp: bit_drop_bit_eq fun_eq_iff add.commute)
  ultimately show ?thesis
    by (simp add: comp_def add.commute add.left_commute)
qed

lemma deliverDelays_deliverAll:
  "M \<le> 63 \<Longrightarrow> \<forall>j \<ge> M. \<not> bit f j \<Longrightarrow>
   deliverDelays source f delay s
     = deliverAll source (map (\<lambda>j. delay + 1 + j) (filter (bit f) [0..<M])) s"
proof (induction source f delay s arbitrary: M rule: deliverDelays.induct)
  case (1 source f delay s)
  show ?case
  proof (cases "f = 0")
    case True
    then show ?thesis
      by (simp add: deliverDelays.simps [of source 0] filter_empty_conv)
  next
    case False
    let ?c = "ctz64 f"
    let ?shift = "1 + ?c"
    note cz = ctz64_props [OF False]
    have cM: "?c < M"
      using cz(2) "1.prems"(2) by (meson not_le)
    then have lt: "?shift < 64" using "1.prems"(1) by simp
    have split: "filter (bit f) [0..<M] = ?c # filter (bit f) [Suc ?c..<M]"
      using cM cz(2,3) by (rule filter_bit_split)
    have rest: "\<forall>j \<ge> M - ?shift. \<not> bit (drop_bit ?shift f) j"
      using "1.prems"(2) by (auto simp: bit_drop_bit_eq)
    have M': "M - ?shift \<le> 63" using "1.prems"(1) by simp
    have sh: "map (\<lambda>j. delay + ?shift + 1 + j) (filter (bit (drop_bit ?shift f)) [0..<M - ?shift])
        = map (\<lambda>j. delay + 1 + j) (filter (bit f) [?shift..<M])"
      using cM by (intro filter_bit_shift) simp
    have step: "deliverDelays source f delay s =
        (case deliverSpikesOne source (delay + ?shift) s of
           Done s' \<Rightarrow> deliverDelays source (drop_bit ?shift f) (delay + ?shift) s'
         | Thrown e s' \<Rightarrow> Thrown e s'
         | Undefined \<Rightarrow> Undefined)"
      using False lt
      by (subst deliverDelays.simps) (simp add: Let_def cong: outcome.case_cong)
    have spec: "deliverAll source (map (\<lambda>j. delay + 1 + j) (filter (bit f) [0..<M])) s =
        bind_outcome (deliverSpikesOne source (delay + ?shift) s)
          (deliverAll source (map (\<lambda>j. delay + 1 + j) (filter (bit f) [?shift..<M])))"
      unfolding split by simp
    show ?thesis
    proof (cases "deliverSpikesOne source (delay + ?shift) s")
      case (Done s1)
      from "1.IH" [OF False refl refl lt Done M' rest]
      have ih: "deliverDelays source (drop_bit ?shift f) (delay + ?shift) s1
          = deliverAll source (map (\<lambda>j. delay + 1 + j) (filter (bit f) [?shift..<M])) s1"
        by (simp only: sh)
      show ?thesis
        unfolding step spec Done by (simp only: outcome.case bind_outcome.simps ih)
    next
      case (Thrown e s1)
      show ?thesis
        unfolding step spec Thrown by (simp only: outcome.case bind_outcome.simps)
    next
      case Undefined
      show ?thesis
        unfolding step spec Undefined by (simp only: outcome.case bind_outcome.simps)
    qed
  qed
qed

lemma due_delays_filter:
  "due_delays history maxDelay = map Suc (filter (bit history) [0..<maxDelay])"
proof -
  have "[1..<maxDelay + 1] = map Suc [0..<maxDelay]"
    by (simp add: map_Suc_upt)
  then show ?thesis
    by (simp add: due_delays_def filter_map comp_def)
qed

lemma deliverDelays_due_delays:
  assumes "maxDelay < 64"
  shows "deliverDelays source (history AND NOT (push_bit maxDelay (NOT 0))) 0 s
     = deliverAll source (due_delays history maxDelay) s"
proof -
  let ?f = "history AND mask maxDelay"
  have valid: "NOT (push_bit maxDelay (NOT 0)) = (mask maxDelay :: 64 word)"
    by simp
  have bits: "bit ?f j \<longleftrightarrow> bit history j \<and> j < maxDelay" for j
    by (auto simp: bit_simps dest: bit_imp_le_length)
  from assms have "maxDelay \<le> 63" by simp
  moreover have "\<forall>j \<ge> maxDelay. \<not> bit ?f j"
    by (simp only: bits) simp
  ultimately have "deliverDelays source ?f 0 s
      = deliverAll source (map (\<lambda>j. 0 + 1 + j) (filter (bit ?f) [0..<maxDelay])) s"
    by (rule deliverDelays_deliverAll)
  moreover have "filter (bit ?f) [0..<maxDelay] = filter (bit history) [0..<maxDelay]"
    by (rule filter_cong) (simp_all only: bits, simp_all)
  ultimately show ?thesis
    by (simp only: valid due_delays_filter) simp
qed

lemma deliverSources_spec:
  fixes s :: "'r Simulation"
  assumes "maxDelay < 64"
  shows "deliverSources (NOT (push_bit maxDelay (NOT 0))) sources s
     = spec_deliverSources maxDelay sources s"
proof (induction sources arbitrary: s)
  case Nil
  show ?case by simp
next
  case (Cons source rest)
  have "(deliverSources (NOT (push_bit maxDelay (NOT 0))) rest
          :: 'r Simulation \<Rightarrow> 'r Simulation outcome)
      = spec_deliverSources maxDelay rest"
    by (rule ext) (rule Cons.IH)
  then show ?case
    by (simp only: deliverSources.simps spec_deliverSources.simps
        deliverDelays_due_delays [OF assms])
qed

lemma deliverSpikes_spec:
  "m_maxDelay (m_cm s) < 64 \<Longrightarrow> deliverSpikes s = spec_deliverSpikes s"
  by (simp only: deliverSpikes_def spec_deliverSpikes_def deliverSources_spec if_True)

lemma due_delays_set:
  "d \<in> set (due_delays history maxDelay) \<longleftrightarrow>
     1 \<le> d \<and> d \<le> maxDelay \<and> bit history (d - 1)"
  unfolding due_delays_def set_filter set_upt by auto

lemma due_delays_timing:
  assumes "run g l gi stims s0 = Done s" and "ready s0"
    and "n < m_neuronCount s0" and "m_valid s0 ! n" and "m_recentFiring s0 ! n = 0"
    and "maxDelay \<le> 64"
  shows "d \<in> set (due_delays (m_recentFiring s ! n) maxDelay) \<longleftrightarrow>
     1 \<le> d \<and> d \<le> maxDelay \<and> d \<le> length stims
       \<and> firedAt g l gi stims s0 n (length stims - d)"
proof (cases "1 \<le> d \<and> d \<le> maxDelay")
  case True
  then have "d - 1 < 64" using assms(6) by linarith
  moreover have "d - 1 < length stims \<longleftrightarrow> d \<le> length stims"
    using True by auto
  moreover have "length stims - 1 - (d - 1) = length stims - d"
    using True by simp
  ultimately have "bit (m_recentFiring s ! n) (d - 1) \<longleftrightarrow>
      d \<le> length stims \<and> firedAt g l gi stims s0 n (length stims - d)"
    using run_history [OF assms(1-5), of "d - 1"] by simp
  with True show ?thesis
    by (simp only: due_delays_set)
next
  case False
  then show ?thesis
    by (simp only: due_delays_set) auto
qed

subsection \<open>Delivery at the largest delay\<close>

text \<open>
  C2. \<open>setRow\<close> accepts a row of delay 64 and makes 64 the largest delay of the matrix.
  \<open>deliverSpikes\<close> then computes its mask with a shift of a 64-bit value by 64, which is
  undefined, so that the spike neuron 0 fired 64 cycles ago is not delivered as the claim
  has it.
\<close>

theorem deliverSpikes_delay_64:
  "setRow id 0 64 [\<lparr>at_target = 1, at_weight = 20, at_plastic = False\<rparr>] empty_ConnectivityMatrix
     = Done (empty_ConnectivityMatrix
         \<lparr>m_acc := [(0, 64) \<mapsto> [\<lparr>weight = 5120, target = 1\<rparr>]],
          m_delays := (\<lambda>source. {})(0 := {64}),
          m_maxDelay := 64\<rparr>)
   \<and> m_maxDelay (m_cm example_delay64) = 64
   \<and> bit (m_recentFiring example_delay64 ! 0) 63
   \<and> deliverSpikes example_delay64 = Undefined"
  by (simp add: setRow_def empty_ConnectivityMatrix_def Row_of_def fx_toFix_def Let_def
      example_delay64_def example_Simulation_def example_ConnectivityMatrix_def
      deliverSpikes_def bit_push_bit_iff)

end
